theory Spec2Isabelle
  imports Complex_Main "HOL-Library.Word"
begin

unbundle bit_operations_syntax

section \<open>JavaScript numbers\<close>

text \<open>
  Every value of \<^verbatim>\<open>mix_oklab.ts\<close> is a JavaScript \<^verbatim>\<open>number\<close>. The model keeps the
  special values of the type and the rules by which they arise and spread; a finite
  number is the real it denotes. Rounding to 53 bits, overflow to an infinity and the
  sign of zero are not represented: arithmetic on finite values is exact, \<^verbatim>\<open>Math.pow\<close>
  (which ECMAScript leaves as an approximation chosen by the implementation) is the
  mathematical power, and every zero is \<^verbatim>\<open>+0\<close>. What is proved below about numeric
  values is proved of this exact arithmetic.
\<close>

datatype number = NaN | PInf | NInf | Fin real

fun nneg :: "number \<Rightarrow> number" where
  "nneg NaN = NaN"
| "nneg PInf = NInf"
| "nneg NInf = PInf"
| "nneg (Fin a) = Fin (- a)"

text \<open>\<^verbatim>\<open>a + b\<close>\<close>

fun nadd :: "number \<Rightarrow> number \<Rightarrow> number" where
  "nadd (Fin a) (Fin b) = Fin (a + b)"
| "nadd NaN _ = NaN"
| "nadd _ NaN = NaN"
| "nadd PInf NInf = NaN"
| "nadd NInf PInf = NaN"
| "nadd PInf _ = PInf"
| "nadd _ PInf = PInf"
| "nadd NInf _ = NInf"
| "nadd _ NInf = NInf"

text \<open>\<^verbatim>\<open>a - b\<close>\<close>

definition nsub :: "number \<Rightarrow> number \<Rightarrow> number" where
  "nsub a b = nadd a (nneg b)"

text \<open>\<^verbatim>\<open>a * b\<close>\<close>

fun nmul :: "number \<Rightarrow> number \<Rightarrow> number" where
  "nmul (Fin a) (Fin b) = Fin (a * b)"
| "nmul NaN _ = NaN"
| "nmul _ NaN = NaN"
| "nmul PInf (Fin b) = (if b = 0 then NaN else if 0 < b then PInf else NInf)"
| "nmul NInf (Fin b) = (if b = 0 then NaN else if 0 < b then NInf else PInf)"
| "nmul (Fin a) PInf = (if a = 0 then NaN else if 0 < a then PInf else NInf)"
| "nmul (Fin a) NInf = (if a = 0 then NaN else if 0 < a then NInf else PInf)"
| "nmul PInf PInf = PInf"
| "nmul PInf NInf = NInf"
| "nmul NInf PInf = NInf"
| "nmul NInf NInf = PInf"

text \<open>\<^verbatim>\<open>a / b\<close>; a zero divisor is \<^verbatim>\<open>+0\<close>.\<close>

fun ndiv :: "number \<Rightarrow> number \<Rightarrow> number" where
  "ndiv (Fin a) (Fin b) =
     (if b = 0 then (if a = 0 then NaN else if 0 < a then PInf else NInf)
      else Fin (a / b))"
| "ndiv NaN _ = NaN"
| "ndiv _ NaN = NaN"
| "ndiv (Fin a) PInf = Fin 0"
| "ndiv (Fin a) NInf = Fin 0"
| "ndiv PInf (Fin b) = (if 0 \<le> b then PInf else NInf)"
| "ndiv NInf (Fin b) = (if 0 \<le> b then NInf else PInf)"
| "ndiv _ _ = NaN"

text \<open>\<^verbatim>\<open>a <= b\<close>: false as soon as one side is \<^verbatim>\<open>NaN\<close>.\<close>

fun nle :: "number \<Rightarrow> number \<Rightarrow> bool" where
  "nle (Fin a) (Fin b) = (a \<le> b)"
| "nle NaN _ = False"
| "nle _ NaN = False"
| "nle NInf _ = True"
| "nle _ PInf = True"
| "nle _ _ = False"

definition is_integral :: "real \<Rightarrow> bool" where
  "is_integral y \<longleftrightarrow> y = of_int \<lfloor>y\<rfloor>"

definition is_odd_integer :: "real \<Rightarrow> bool" where
  "is_odd_integer y \<longleftrightarrow> is_integral y \<and> odd \<lfloor>y\<rfloor>"

text \<open>
  \<^verbatim>\<open>Math.pow(base, exponent)\<close>, in the case order of ECMAScript's
  \<^verbatim>\<open>Number::exponentiate\<close>. The last case is the mathematical power.
\<close>

fun pow :: "number \<Rightarrow> number \<Rightarrow> number" where
  "pow _ NaN = NaN"
| "pow base (Fin y) =
     (if y = 0 then Fin 1
      else case base of
        NaN \<Rightarrow> NaN
      | PInf \<Rightarrow> (if 0 < y then PInf else Fin 0)
      | NInf \<Rightarrow> (if 0 < y then (if is_odd_integer y then NInf else PInf) else Fin 0)
      | Fin x \<Rightarrow>
          (if x = 0 then (if 0 < y then Fin 0 else PInf)
           else if x < 0 \<and> \<not> is_integral y then NaN
           else if x < 0 then Fin (x powi \<lfloor>y\<rfloor>)
           else Fin (x powr y)))"
| "pow base PInf =
     (case base of
        NaN \<Rightarrow> NaN
      | Fin x \<Rightarrow> (if 1 < \<bar>x\<bar> then PInf else if \<bar>x\<bar> = 1 then NaN else Fin 0)
      | _ \<Rightarrow> PInf)"
| "pow base NInf =
     (case base of
        NaN \<Rightarrow> NaN
      | Fin x \<Rightarrow> (if 1 < \<bar>x\<bar> then Fin 0 else if \<bar>x\<bar> = 1 then NaN else PInf)
      | _ \<Rightarrow> Fin 0)"

text \<open>Truncation toward zero.\<close>

definition trunc :: "real \<Rightarrow> int" where
  "trunc x = (if 0 \<le> x then \<lfloor>x\<rfloor> else \<lceil>x\<rceil>)"

text \<open>
  \<^verbatim>\<open>ToInt32\<close>, which every bitwise operator applies to its operands: \<^verbatim>\<open>NaN\<close> and the
  infinities become 0, a finite number is truncated and reduced modulo \<open>2 ^ 32\<close>. The
  result of a bitwise operator is the signed reading of the 32 bits.
\<close>

fun ToInt32 :: "number \<Rightarrow> 32 word" where
  "ToInt32 (Fin x) = word_of_int (trunc x)"
| "ToInt32 _ = 0"

definition fromInt32 :: "32 word \<Rightarrow> number" where
  "fromInt32 w = Fin (real_of_int (sint w))"

section \<open>Vectors and matrices\<close>

type_synonym Vec3 = "number \<times> number \<times> number"
type_synonym Mat3 = "Vec3 \<times> Vec3 \<times> Vec3"

fun mat3MultiplyVec3 :: "Mat3 \<Rightarrow> Vec3 \<Rightarrow> Vec3" where
  "mat3MultiplyVec3 ((m00, m01, m02), (m10, m11, m12), (m20, m21, m22)) (v0, v1, v2) =
     (nadd (nadd (nmul m00 v0) (nmul m01 v1)) (nmul m02 v2),
      nadd (nadd (nmul m10 v0) (nmul m11 v1)) (nmul m12 v2),
      nadd (nadd (nmul m20 v0) (nmul m21 v1)) (nmul m22 v2))"

fun mix :: "Vec3 \<Rightarrow> Vec3 \<Rightarrow> number \<Rightarrow> Vec3" where
  "mix (a0, a1, a2) (b0, b1, b2) h =
     (nadd (nmul a0 (nsub (Fin 1) h)) (nmul b0 h),
      nadd (nmul a1 (nsub (Fin 1) h)) (nmul b1 h),
      nadd (nmul a2 (nsub (Fin 1) h)) (nmul b2 h))"

fun powVec3 :: "Vec3 \<Rightarrow> number \<Rightarrow> Vec3" where
  "powVec3 (v0, v1, v2) ex = (pow v0 ex, pow v1 ex, pow v2 ex)"

definition kCONEtoLMS :: Mat3 where
  "kCONEtoLMS =
     ((Fin 0.4121656120, Fin 0.2118591070, Fin 0.0883097947),
      (Fin 0.5362752080, Fin 0.6807189584, Fin 0.2818474174),
      (Fin 0.0514575653, Fin 0.1074065790, Fin 0.6302613616))"

definition kLMStoCONE :: Mat3 where
  "kLMStoCONE =
     ((Fin 4.0767245293, Fin (- 1.2681437731), Fin (- 0.0041119885)),
      (Fin (- 3.3072168827), Fin 2.6093323231, Fin (- 0.7034763098)),
      (Fin 0.2307590544, Fin (- 0.3411344290), Fin 1.7068625689))"

section \<open>The mixing engine\<close>

text \<open>\<^verbatim>\<open>cube3\<close> is the vector of cubes that \<^verbatim>\<open>oklabMix\<close> writes out in its last call.\<close>

fun cube3 :: "Vec3 \<Rightarrow> Vec3" where
  "cube3 (l0, l1, l2) =
     (nmul (nmul l0 l0) l0, nmul (nmul l1 l1) l1, nmul (nmul l2 l2) l2)"

definition oklabMix :: "Vec3 \<Rightarrow> Vec3 \<Rightarrow> number \<Rightarrow> Vec3" where
  "oklabMix colA colB h =
     (let lmsA = powVec3 (mat3MultiplyVec3 kCONEtoLMS colA) (ndiv (Fin 1) (Fin 3));
          lmsB = powVec3 (mat3MultiplyVec3 kCONEtoLMS colB) (ndiv (Fin 1) (Fin 3));
          lms = mix lmsA lmsB h
      in mat3MultiplyVec3 kLMStoCONE (cube3 lms))"

section \<open>The transfer functions\<close>

text \<open>
  The source writes the piecewise expression out three times, for \<^verbatim>\<open>r\<close>, \<^verbatim>\<open>g\<close> and
  \<^verbatim>\<open>b\<close>; the model names it once.
\<close>

definition srgbEncode :: "number \<Rightarrow> number" where
  "srgbEncode c =
     (if nle c (Fin 0.0031308) then nmul c (Fin 12.92)
      else nsub (nmul (Fin 1.055) (pow c (ndiv (Fin 1) (Fin 2.4)))) (Fin 0.055))"

definition srgbDecode :: "number \<Rightarrow> number" where
  "srgbDecode c =
     (if nle c (Fin 0.04045) then ndiv c (Fin 12.92)
      else pow (ndiv (nadd c (Fin 0.055)) (Fin 1.055)) (Fin 2.4))"

text \<open>
  \<^verbatim>\<open>(c * 255 + 0.5) | 0\<close>. The result is an Int32; \<^verbatim>\<open>linearRGBtoHex\<close> keeps the three
  of them as their 32 bits until the packed value is returned, since \<^verbatim>\<open>ToInt32\<close> of an
  Int32 is that Int32.
\<close>

definition quantize :: "number \<Rightarrow> 32 word" where
  "quantize c = ToInt32 (nadd (nmul c (Fin 255)) (Fin 0.5)) OR 0"

fun linearRGBtoHex :: "Vec3 \<Rightarrow> number" where
  "linearRGBtoHex (r, g, b) =
     (let r = srgbEncode r; g = srgbEncode g; b = srgbEncode b;
          r = quantize r; g = quantize g; b = quantize b
      in fromInt32 (push_bit 16 r OR push_bit 8 g OR b))"

definition hexToLinearRGB :: "number \<Rightarrow> Vec3" where
  "hexToLinearRGB hex =
     (let r = fromInt32 (signed_drop_bit 16 (ToInt32 hex) AND 0xFF);
          g = fromInt32 (signed_drop_bit 8 (ToInt32 hex) AND 0xFF);
          b = fromInt32 (ToInt32 hex AND 0xFF);
          r = ndiv r (Fin 255); g = ndiv g (Fin 255); b = ndiv b (Fin 255)
      in (srgbDecode r, srgbDecode g, srgbDecode b))"

section \<open>Hexadecimal strings\<close>

text \<open>
  Strings are lists of bytes, so a character outside ASCII is several bytes, none of
  them a hexadecimal digit. \<^verbatim>\<open>n.toString(16)\<close> on an integer writes its digits in
  lower case, with a minus sign in front of a negative one.
\<close>

definition hexDigitChar :: "nat \<Rightarrow> char" where
  "hexDigitChar d = ''0123456789abcdef'' ! d"

fun toString16nat :: "nat \<Rightarrow> string" where
  "toString16nat n =
     (if n < 16 then [hexDigitChar n]
      else toString16nat (n div 16) @ [hexDigitChar (n mod 16)])"

definition toString16 :: "int \<Rightarrow> string" where
  "toString16 n =
     (if n < 0 then CHR ''-'' # toString16nat (nat (- n)) else toString16nat (nat n))"

definition hexToString :: "number \<Rightarrow> string" where
  "hexToString hex =
     (let r = sint (signed_drop_bit 16 (ToInt32 hex) AND 0xFF);
          g = sint (signed_drop_bit 8 (ToInt32 hex) AND 0xFF);
          b = sint (ToInt32 hex AND 0xFF)
      in ''#'' @
         ((if r < 16 then ''0'' else []) @ toString16 r) @
         ((if g < 16 then ''0'' else []) @ toString16 g) @
         ((if b < 16 then ''0'' else []) @ toString16 b))"

definition isHexDigit :: "char \<Rightarrow> bool" where
  "isHexDigit c \<longleftrightarrow> c \<in> set ''0123456789ABCDEFabcdef''"

definition digitVal :: "char \<Rightarrow> int" where
  "digitVal c =
     (let n = int (of_char c)
      in if 48 \<le> n \<and> n \<le> 57 then n - 48
         else if 65 \<le> n \<and> n \<le> 70 then n - 55
         else n - 87)"

text \<open>
  \<^verbatim>\<open>/^#?[0-9A-Fa-f]{6}$/.test(hexStr)\<close>: the whole string is six hexadecimal digits,
  with or without one \<^verbatim>\<open>#\<close> in front (\<^verbatim>\<open>$\<close> without the \<^verbatim>\<open>m\<close> flag matches at the end
  of the input only).
\<close>

definition hexPattern :: "string \<Rightarrow> bool" where
  "hexPattern hexStr \<longleftrightarrow>
     (length hexStr = 6 \<and> list_all isHexDigit hexStr) \<or>
     (hexStr \<noteq> [] \<and> hd hexStr = CHR ''#'' \<and>
      length (tl hexStr) = 6 \<and> list_all isHexDigit (tl hexStr))"

definition isWhiteSpace :: "char \<Rightarrow> bool" where
  "isWhiteSpace c \<longleftrightarrow> (of_char c :: nat) \<in> {9, 10, 11, 12, 13, 32}"

text \<open>
  \<^verbatim>\<open>parseInt(s, 16)\<close>: leading white space (the ASCII white space here), a sign and a
  \<^verbatim>\<open>0x\<close> prefix are skipped, the longest run of hexadecimal digits is read, and \<^verbatim>\<open>NaN\<close>
  is returned when it is empty.
\<close>

definition parseInt16 :: "string \<Rightarrow> number" where
  "parseInt16 s =
     (let s1 = dropWhile isWhiteSpace s;
          sign = (if take 1 s1 = ''-'' then - 1 else 1);
          s2 = (if take 1 s1 = ''-'' \<or> take 1 s1 = ''+'' then drop 1 s1 else s1);
          s3 = (if take 2 s2 = ''0x'' \<or> take 2 s2 = ''0X'' then drop 2 s2 else s2);
          ds = takeWhile isHexDigit s3
      in if ds = [] then NaN
         else Fin (of_int (sign * foldl (\<lambda>acc d. 16 * acc + digitVal d) 0 ds)))"

datatype error = Error string

definition InvalidFormat :: error where
  "InvalidFormat = Error ''Invalid hex color format.''"

definition stringToHex :: "string \<Rightarrow> error + number" where
  "stringToHex hexStr =
     (if \<not> hexPattern hexStr then Inl InvalidFormat
      else let hexStr = (if take 1 hexStr = ''#'' then drop 1 hexStr else hexStr)
           in Inr (parseInt16 hexStr))"

section \<open>The driver\<close>

text \<open>
  One entry per iteration of the loop of \<^verbatim>\<open>call\<close>: the blended colour, its packed
  value, the string that is logged, and the three channels of the terminal block. The
  text of the logged lines themselves is not modelled.
\<close>

record entry =
  color :: Vec3
  hexColor :: number
  hexString :: string
  block :: "int \<times> int \<times> int"

definition body :: "Vec3 \<Rightarrow> Vec3 \<Rightarrow> number \<Rightarrow> number \<Rightarrow> entry" where
  "body Start End midpoints i =
     (let color = oklabMix Start End (ndiv i midpoints);
          hexColor = linearRGBtoHex color;
          hexString = hexToString hexColor;
          r = sint (signed_drop_bit 16 (ToInt32 hexColor) AND 0xFF);
          g = sint (signed_drop_bit 8 (ToInt32 hexColor) AND 0xFF);
          b = sint (ToInt32 hexColor AND 0xFF)
      in \<lparr>color = color, hexColor = hexColor, hexString = hexString, block = (r, g, b)\<rparr>)"

text \<open>
  \<^verbatim>\<open>for (let i = 0; i <= midpoints; i++)\<close>. The bound is any number, so the loop need
  not end: \<open>None\<close> is the run that never returns.
\<close>

partial_function (option) loop ::
  "Vec3 \<Rightarrow> Vec3 \<Rightarrow> number \<Rightarrow> number \<Rightarrow> entry list \<Rightarrow> entry list option" where
  "loop Start End midpoints i out =
     (if nle i midpoints
      then loop Start End midpoints (nadd i (Fin 1)) (out @ [body Start End midpoints i])
      else Some out)"

text \<open>
  \<^verbatim>\<open>call(start, end, midpoints?)\<close>: an absent third argument is \<open>None\<close>. The result is
  the error thrown by \<^verbatim>\<open>stringToHex\<close>, or the entries in the order they are logged.
\<close>

definition call :: "string \<Rightarrow> string \<Rightarrow> number option \<Rightarrow> (error + entry list) option" where
  "call start end' midpoints =
     (case stringToHex start of
        Inl e \<Rightarrow> Some (Inl e)
      | Inr s \<Rightarrow>
         (case stringToHex end' of
            Inl e \<Rightarrow> Some (Inl e)
          | Inr e \<Rightarrow>
             (let Start = hexToLinearRGB s;
                  End = hexToLinearRGB e;
                  midpoints = (case midpoints of None \<Rightarrow> Fin 1 | Some m \<Rightarrow> m);
                  midpoints = nadd midpoints (Fin 1)
              in map_option Inr (loop Start End midpoints (Fin 0) []))))"

declare loop.simps [code]

section \<open>The terms of the specification\<close>

text \<open>
  The accepted strings as the specification words them: an optional leading \<^verbatim>\<open>#\<close>, then
  exactly six hexadecimal digits in either case. The value of such a string is read
  positionally from a table of digit values.
\<close>

definition stripHash :: "string \<Rightarrow> string" where
  "stripHash s = (case s of [] \<Rightarrow> [] | c # rest \<Rightarrow> if c = CHR ''#'' then rest else s)"

definition validHexString :: "string \<Rightarrow> bool" where
  "validHexString s \<longleftrightarrow> length (stripHash s) = 6 \<and> (\<forall>c \<in> set (stripHash s). isHexDigit c)"

definition hexDigitValue :: "char \<Rightarrow> int" where
  "hexDigitValue c =
     (case map_of (zip ''0123456789abcdef'' [0 ..< 16] @ zip ''ABCDEF'' [10 ..< 16]) c of
        Some v \<Rightarrow> int v
      | None \<Rightarrow> 0)"

fun hexValue :: "string \<Rightarrow> int" where
  "hexValue [] = 0"
| "hexValue (c # cs) = hexDigitValue c * 16 ^ length cs + hexValue cs"

text \<open>
  Component \<open>k\<close> of a vector, a number below zero, a vector of finite numbers, and an
  in-gamut colour: three finite channels between 0 and 1.
\<close>

fun vnth :: "Vec3 \<Rightarrow> nat \<Rightarrow> number" where
  "vnth (v0, v1, v2) k = (if k = 0 then v0 else if k = 1 then v1 else v2)"

fun negative :: "number \<Rightarrow> bool" where
  "negative (Fin x) = (x < 0)"
| "negative NInf = True"
| "negative _ = False"

fun finiteVec :: "Vec3 \<Rightarrow> bool" where
  "finiteVec (Fin _, Fin _, Fin _) = True"
| "finiteVec _ = False"

fun inGamut :: "Vec3 \<Rightarrow> bool" where
  "inGamut (Fin r, Fin g, Fin b) = (0 \<le> r \<and> r \<le> 1 \<and> 0 \<le> g \<and> g \<le> 1 \<and> 0 \<le> b \<and> b \<le> 1)"
| "inGamut _ = False"

text \<open>Two vectors of finite numbers that agree within \<open>eps\<close> in every component.\<close>

fun closeTo :: "real \<Rightarrow> Vec3 \<Rightarrow> Vec3 \<Rightarrow> bool" where
  "closeTo eps (Fin a0, Fin a1, Fin a2) (Fin b0, Fin b1, Fin b2) =
     (\<bar>a0 - b0\<bar> \<le> eps \<and> \<bar>a1 - b1\<bar> \<le> eps \<and> \<bar>a2 - b2\<bar> \<le> eps)"
| "closeTo _ _ _ = False"

text \<open>The 8-bit channel at bit offset \<open>k\<close> of a packed value.\<close>

definition channel :: "nat \<Rightarrow> int \<Rightarrow> int" where
  "channel k n = (n div 2 ^ k) mod 256"

text \<open>
  The encoder as the specification words it: the piecewise sRGB function of a channel,
  the scaling by 255 with 0.5 added and truncation toward zero, and the packing of three
  integers by shift and or. The first two are functions of exact reals. They agree with
  \<^verbatim>\<open>srgbEncode\<close> and \<^verbatim>\<open>quantize\<close> in the model, where a finite number is the real
  it denotes, and serve to bound the channels of the colours computed below, away from
  the boundaries of rounding; what is stated of the encoder at every input is stated of
  the values that the program computes.
\<close>

definition srgb_encode :: "real \<Rightarrow> real" where
  "srgb_encode c = (if c \<le> 0.0031308 then c * 12.92 else 1.055 * c powr (1 / 2.4) - 0.055)"

definition scale8 :: "real \<Rightarrow> int" where
  "scale8 e = trunc (e * 255 + 0.5)"

definition pack24 :: "int \<Rightarrow> int \<Rightarrow> int \<Rightarrow> int" where
  "pack24 r g b = push_bit 16 r OR push_bit 8 g OR b"

section \<open>Arithmetic of the special values\<close>

lemma nadd_NaN [simp]: "nadd x NaN = NaN"
  by (cases x) simp_all

lemma nmul_NaN [simp]: "nmul x NaN = NaN"
  by (cases x) simp_all

lemma nsub_NaN [simp]: "nsub NaN x = NaN" "nsub x NaN = NaN"
  by (simp_all add: nsub_def)

lemma nsub_Fin [simp]: "nsub (Fin a) (Fin b) = Fin (a - b)"
  by (simp add: nsub_def)

lemma nadd_commute: "nadd a b = nadd b a"
  by (cases a; cases b) simp_all

lemma finiteVec_cases:
  assumes "finiteVec v"
  obtains a0 a1 a2 where "v = (Fin a0, Fin a1, Fin a2)"
  using assms by (rule finiteVec.elims) auto

lemma inGamut_cases:
  assumes "inGamut v"
  obtains r g b where "v = (Fin r, Fin g, Fin b)"
    and "0 \<le> r" "r \<le> 1" "0 \<le> g" "g \<le> 1" "0 \<le> b" "b \<le> 1"
  using assms by (rule inGamut.elims) auto

lemma third_not_integral: "\<not> is_integral (1 / 3)"
  by (simp add: is_integral_def)

lemma pow_third_negative: "x < 0 \<Longrightarrow> pow (Fin x) (ndiv (Fin 1) (Fin 3)) = NaN"
  by (simp add: third_not_integral)

lemma pow_third_nonneg: "0 \<le> x \<Longrightarrow> pow (Fin x) (ndiv (Fin 1) (Fin 3)) = Fin (x powr (1 / 3))"
  by simp

lemma mat_NaN:
  assumes "c0 = NaN \<or> c1 = NaN \<or> c2 = NaN"
  shows "mat3MultiplyVec3 ((m00, m01, m02), (m10, m11, m12), (m20, m21, m22)) (c0, c1, c2) = (NaN, NaN, NaN)"
  using assms by auto

lemma linearRGBtoHex_NaN: "linearRGBtoHex (NaN, NaN, NaN) = Fin 0"
  by (simp add: srgbEncode_def quantize_def fromInt32_def)

lemma cone_finite:
  "mat3MultiplyVec3 kCONEtoLMS (Fin a0, Fin a1, Fin a2) =
     (Fin (0.4121656120 * a0 + 0.2118591070 * a1 + 0.0883097947 * a2),
      Fin (0.5362752080 * a0 + 0.6807189584 * a1 + 0.2818474174 * a2),
      Fin (0.0514575653 * a0 + 0.1074065790 * a1 + 0.6302613616 * a2))"
  by (simp add: kCONEtoLMS_def)

section \<open>Channels of a packed value\<close>

lemma trunc_of_int: "trunc (of_int n) = n"
  by (simp add: trunc_def)

lemma w255: "(0xFF :: 32 word) = mask 8"
  by (simp add: mask_eq_exp_minus_1)

lemma byte_word:
  assumes "k \<le> 24"
  shows "signed_drop_bit k (word_of_int n :: 32 word) AND 0xFF = word_of_int (take_bit 8 (drop_bit k n))"
  unfolding w255
  apply (rule bit_word_eqI)
  using assms apply (auto simp add: bit_simps)
  done

lemma sint_byte: "sint (word_of_int (take_bit 8 m) :: 32 word) = take_bit 8 m"
  by (simp add: sint_sbintrunc' signed_take_bit_take_bit)

lemma channel_sint:
  assumes "k \<le> 24"
  shows "sint (signed_drop_bit k (word_of_int n :: 32 word) AND 0xFF) = (n div 2 ^ k) mod 256"
proof -
  have "sint (signed_drop_bit k (word_of_int n :: 32 word) AND 0xFF) = take_bit 8 (drop_bit k n)"
    by (simp only: byte_word [OF assms] sint_byte)
  then show ?thesis
    by (simp add: take_bit_eq_mod drop_bit_eq_div)
qed

lemma channel0_sint: "sint ((word_of_int n :: 32 word) AND 0xFF) = n mod 256"
  using channel_sint [of 0 n] by simp

section \<open>Powers with a rational exponent\<close>

lemma powr_ratio:
  fixes x :: real
  assumes "0 < x" and "0 < q"
  shows "x powr (real p / real q) = (x ^ p) powr (1 / real q)"
proof -
  have "(x ^ p) powr (1 / real q) = (x powr real p) powr (1 / real q)"
    using assms(1) by (simp only: powr_realpow)
  also have "\<dots> = x powr (real p * (1 / real q))"
    by (simp only: powr_powr)
  finally show ?thesis by simp
qed

lemma root_of_power:
  fixes y :: real
  assumes "0 < y" and "0 < q"
  shows "(y ^ q) powr (1 / real q) = y"
proof -
  have "(y ^ q) powr (1 / real q) = y powr (real q / real q)"
    using powr_ratio [OF assms, of q] by simp
  also have "\<dots> = y" using assms by simp
  finally show ?thesis .
qed

lemma powr_ratio_ge:
  fixes x l :: real
  assumes "0 < x" "0 < l" "0 < q" and "l ^ q \<le> x ^ p"
  shows "l \<le> x powr (real p / real q)"
proof -
  have "(l ^ q) powr (1 / real q) \<le> (x ^ p) powr (1 / real q)"
    using assms by (intro powr_mono2) simp_all
  then show ?thesis
    by (simp only: root_of_power [OF assms(2,3)] powr_ratio [OF assms(1,3), symmetric])
qed

lemma powr_ratio_gt:
  fixes x l :: real
  assumes "0 < x" "0 < l" "0 < q" and "l ^ q < x ^ p"
  shows "l < x powr (real p / real q)"
proof -
  have "(l ^ q) powr (1 / real q) < (x ^ p) powr (1 / real q)"
    using assms by (intro powr_less_mono2) simp_all
  then show ?thesis
    by (simp only: root_of_power [OF assms(2,3)] powr_ratio [OF assms(1,3), symmetric])
qed

lemma powr_ratio_lt:
  fixes x u :: real
  assumes "0 < x" "0 < u" "0 < q" and "x ^ p < u ^ q"
  shows "x powr (real p / real q) < u"
proof -
  have "(x ^ p) powr (1 / real q) < (u ^ q) powr (1 / real q)"
    using assms by (intro powr_less_mono2) simp_all
  then show ?thesis
    by (simp only: root_of_power [OF assms(2,3)] powr_ratio [OF assms(1,3), symmetric])
qed

lemma powr_ratio_le:
  fixes x u :: real
  assumes "0 < x" "0 < u" "0 < q" and "x ^ p \<le> u ^ q"
  shows "x powr (real p / real q) \<le> u"
proof -
  have "(x ^ p) powr (1 / real q) \<le> (u ^ q) powr (1 / real q)"
    using assms by (intro powr_mono2) simp_all
  then show ?thesis
    by (simp only: root_of_power [OF assms(2,3)] powr_ratio [OF assms(1,3), symmetric])
qed

section \<open>The sequence produced by the driver\<close>

lemma loop_upto:
  assumes "k \<le> Suc N"
  shows "loop Start End (Fin (real N)) (Fin (real k)) out =
         Some (out @ map (\<lambda>j. body Start End (Fin (real N)) (Fin (real j))) [k ..< Suc N])"
  using assms
proof (induction "Suc N - k" arbitrary: k out)
  case 0
  then have k: "k = Suc N" by simp
  show ?case
    by (subst loop.simps) (simp add: k)
next
  case (Suc d)
  then have lt: "k < Suc N" and d: "d = Suc N - Suc k" and le: "Suc k \<le> Suc N" by auto
  have nx: "nadd (Fin (real k)) (Fin 1) = Fin (real (Suc k))" by (simp add: add.commute)
  have "loop Start End (Fin (real N)) (Fin (real k)) out =
        loop Start End (Fin (real N)) (Fin (real (Suc k))) (out @ [body Start End (Fin (real N)) (Fin (real k))])"
    using lt by (subst loop.simps) (simp only: nx nle.simps, simp)
  also have "\<dots> = Some ((out @ [body Start End (Fin (real N)) (Fin (real k))]) @
        map (\<lambda>j. body Start End (Fin (real N)) (Fin (real j))) [Suc k ..< Suc N])"
    by (rule Suc.hyps(1) [OF d le])
  also have "\<dots> = Some (out @ map (\<lambda>j. body Start End (Fin (real N)) (Fin (real j))) [k ..< Suc N])"
    by (simp only: upt_conv_Cons [OF lt] list.map append_assoc append_Cons append_Nil)
  finally show ?case .
qed

lemma call_entries:
  assumes "stringToHex start = Inr s" and "stringToHex end' = Inr e"
  shows "call start end' (Some (Fin (real m))) =
         Some (Inr (map (\<lambda>j. body (hexToLinearRGB s) (hexToLinearRGB e) (Fin (real (Suc m))) (Fin (real j)))
                        [0 ..< m + 2]))"
proof -
  have mp: "nadd (Fin (real m)) (Fin 1) = Fin (real (Suc m))" by simp
  have z: "Fin 0 = Fin (real 0)" by simp
  have l: "loop (hexToLinearRGB s) (hexToLinearRGB e) (Fin (real (Suc m))) (Fin (real 0)) [] =
        Some ([] @ map (\<lambda>j. body (hexToLinearRGB s) (hexToLinearRGB e) (Fin (real (Suc m))) (Fin (real j)))
                       [0 ..< Suc (Suc m)])"
    by (rule loop_upto) simp
  have n: "m + 2 = Suc (Suc m)" by simp
  show ?thesis
    unfolding call_def assms Let_def n
    by (simp only: sum.case option.case mp z l append_Nil option.map)
qed

lemma body_color:
  "color (body Start End (Fin (real (Suc m))) (Fin (real j))) =
     oklabMix Start End (Fin (real j / real (Suc m)))"
  by (simp add: body_def Let_def)

lemma body_fields:
  "hexColor (body Start End mp i) = linearRGBtoHex (color (body Start End mp i))"
  "hexString (body Start End mp i) = hexToString (hexColor (body Start End mp i))"
  by (simp_all add: body_def Let_def)

lemma body_at:
  "color (body Start End (Fin (real (Suc m))) (Fin (real j))) =
     oklabMix Start End (Fin (real j / real (Suc m)))"
  "hexColor (body Start End (Fin (real (Suc m))) (Fin (real j))) =
     linearRGBtoHex (oklabMix Start End (Fin (real j / real (Suc m))))"
  "hexString (body Start End (Fin (real (Suc m))) (Fin (real j))) =
     hexToString (linearRGBtoHex (oklabMix Start End (Fin (real j / real (Suc m)))))"
  by (simp_all add: body_def Let_def)

section \<open>Parsing a colour string\<close>

lemma upt16: "[0 ..< 16] = [0, 1, 2, 3, 4, 5, 6, 7, 8, 9, 10, 11, 12, 13, 14, 15]"
             "[10 ..< 16] = [10, 11, 12, 13, 14, 15]"
  by (simp_all add: upt_rec)

lemma hexDigit_facts:
  assumes "isHexDigit c"
  shows "digitVal c = hexDigitValue c" and "0 \<le> hexDigitValue c" and "hexDigitValue c < 16"
    and "\<not> isWhiteSpace c" and "c \<noteq> CHR ''#''" and "c \<noteq> CHR ''-''" and "c \<noteq> CHR ''+''"
    and "c \<noteq> CHR ''x''" and "c \<noteq> CHR ''X''"
  using assms
  unfolding isHexDigit_def
  by (auto simp add: digitVal_def hexDigitValue_def isWhiteSpace_def upt16)

lemma foldl_hexValue:
  assumes "\<forall>c \<in> set ds. isHexDigit c"
  shows "foldl (\<lambda>acc d. 16 * acc + digitVal d) a ds = a * 16 ^ length ds + hexValue ds"
  using assms
proof (induction ds arbitrary: a)
  case Nil
  then show ?case by simp
next
  case (Cons d ds)
  then have "digitVal d = hexDigitValue d" by (simp add: hexDigit_facts)
  with Cons show ?case by (simp add: algebra_simps)
qed

lemma hexValue_bounds:
  assumes "\<forall>c \<in> set ds. isHexDigit c"
  shows "0 \<le> hexValue ds \<and> hexValue ds < 16 ^ length ds"
  using assms
proof (induction ds)
  case Nil
  then show ?case by simp
next
  case (Cons d ds)
  then have d: "0 \<le> hexDigitValue d" "hexDigitValue d \<le> 15" and
    ih: "0 \<le> hexValue ds" "hexValue ds < 16 ^ length ds"
    using hexDigit_facts(2,3) [of d] by auto
  have m: "hexDigitValue d * 16 ^ length ds \<le> 15 * 16 ^ length ds"
    using d by (intro mult_right_mono) auto
  have z: "0 \<le> hexDigitValue d * 16 ^ length ds"
    using d by simp
  have "hexValue (d # ds) = hexDigitValue d * 16 ^ length ds + hexValue ds"
       "(16 :: int) ^ length (d # ds) = 16 * 16 ^ length ds"
    by simp_all
  with m z ih show ?case by linarith
qed

lemma parseInt16_digits:
  assumes "ds \<noteq> []" and "\<forall>c \<in> set ds. isHexDigit c"
  shows "parseInt16 ds = Fin (of_int (hexValue ds))"
proof -
  from assms obtain c cs where ds: "ds = c # cs" by (cases ds) auto
  with assms have c: "isHexDigit c" by simp
  have s1: "dropWhile isWhiteSpace ds = ds"
    using hexDigit_facts(4) [OF c] by (simp add: ds)
  have sg: "take 1 ds \<noteq> ''-''" "take 1 ds \<noteq> ''+''"
    using hexDigit_facts(6,7) [OF c] by (simp_all add: ds)
  have px: "take 2 ds \<noteq> [a, b]" if "\<not> isHexDigit b" for a b
  proof (cases cs)
    case Nil
    then show ?thesis by (simp add: ds)
  next
    case (Cons c' cs')
    with assms ds have "isHexDigit c'" by simp
    with that have "c' \<noteq> b" by auto
    then show ?thesis by (simp add: ds Cons)
  qed
  have nx: "\<not> isHexDigit CHR ''x''" "\<not> isHexDigit CHR ''X''"
    by (simp_all add: isHexDigit_def)
  have s3: "take 2 ds \<noteq> ''0x''" "take 2 ds \<noteq> ''0X''"
    using px [OF nx(1)] px [OF nx(2)] by simp_all
  have tw: "takeWhile isHexDigit ds = ds"
    using assms by (simp add: takeWhile_eq_all_conv)
  show ?thesis
    unfolding parseInt16_def Let_def s1
    using sg s3 assms(1) by (simp add: tw foldl_hexValue [OF assms(2)])
qed

lemma hexPattern_valid: "hexPattern s \<longleftrightarrow> validHexString s"
proof (cases s)
  case Nil
  then show ?thesis by (simp add: hexPattern_def validHexString_def stripHash_def)
next
  case (Cons c rest)
  have nh: "\<not> isHexDigit CHR ''#''" by (simp add: isHexDigit_def)
  show ?thesis
  proof (cases "c = CHR ''#''")
    case True
    with Cons nh show ?thesis
      by (auto simp add: hexPattern_def validHexString_def stripHash_def list_all_iff)
  next
    case False
    with Cons show ?thesis
      by (auto simp add: hexPattern_def validHexString_def stripHash_def list_all_iff)
  qed
qed

lemma strip_eq: "(if take 1 s = ''#'' then drop 1 s else s) = stripHash s"
  by (cases s) (auto simp add: stripHash_def)

lemma stringToHex_range:
  assumes "stringToHex str = Inr v"
  obtains n where "v = Fin (real_of_int n)" and "0 \<le> n" and "n < 2 ^ 24"
proof -
  from assms have val: "validHexString str"
    by (auto simp add: stringToHex_def hexPattern_valid split: if_splits)
  then have len: "length (stripHash str) = 6" and hex: "\<forall>c \<in> set (stripHash str). isHexDigit c"
    by (simp_all add: validHexString_def)
  from len have ne: "stripHash str \<noteq> []" by auto
  have "stringToHex str = Inr (parseInt16 (stripHash str))"
    unfolding stringToHex_def Let_def strip_eq
    using val by (simp add: hexPattern_valid)
  with assms have "v = Fin (real_of_int (hexValue (stripHash str)))"
    by (simp add: parseInt16_digits [OF ne hex])
  moreover from hexValue_bounds [OF hex] len
  have "0 \<le> hexValue (stripHash str)" "hexValue (stripHash str) < 2 ^ 24" by simp_all
  ultimately show ?thesis by (rule that)
qed

text \<open>
  C4. \<^verbatim>\<open>stringToHex\<close> succeeds exactly on the strings made of an optional leading
  \<^verbatim>\<open>#\<close> and exactly six hexadecimal digits of either case, returns their 24-bit value,
  and fails with the format error on every other string.
\<close>

theorem stringToHex_spec:
  "(validHexString s \<longrightarrow>
      stringToHex s = Inr (Fin (of_int (hexValue (stripHash s)))) \<and>
      0 \<le> hexValue (stripHash s) \<and> hexValue (stripHash s) < 2 ^ 24) \<and>
   (\<not> validHexString s \<longrightarrow> stringToHex s = Inl InvalidFormat)"
proof (cases "validHexString s")
  case False
  then show ?thesis by (simp add: stringToHex_def hexPattern_valid)
next
  case True
  then have len: "length (stripHash s) = 6" and hex: "\<forall>c \<in> set (stripHash s). isHexDigit c"
    by (simp_all add: validHexString_def)
  from len have ne: "stripHash s \<noteq> []" by auto
  have "stringToHex s = Inr (parseInt16 (stripHash s))"
    unfolding stringToHex_def Let_def strip_eq
    using True by (simp add: hexPattern_valid)
  then have "stringToHex s = Inr (Fin (of_int (hexValue (stripHash s))))"
    by (simp only: parseInt16_digits [OF ne hex])
  moreover from hexValue_bounds [OF hex] len
  have "0 \<le> hexValue (stripHash s)" "hexValue (stripHash s) < 2 ^ 24" by simp_all
  ultimately show ?thesis using True by blast
qed

theorem stringToHex_spec_witness:
  "stringToHex ''#FF00FF'' = Inr (Fin 0xFF00FF) \<and>
   stringToHex ''ff00ff'' = Inr (Fin 0xFF00FF) \<and>
   stringToHex ''zzzzzz'' = Inl InvalidFormat \<and>
   stringToHex ''#12345'' = Inl InvalidFormat \<and>
   stringToHex [] = Inl InvalidFormat"
proof -
  have v: "validHexString ''#FF00FF''" "validHexString ''ff00ff''"
    "\<not> validHexString ''zzzzzz''" "\<not> validHexString ''#12345''" "\<not> validHexString []"
    by (simp_all add: validHexString_def stripHash_def isHexDigit_def)
  have h: "hexValue (stripHash ''#FF00FF'') = 0xFF00FF" "hexValue (stripHash ''ff00ff'') = 0xFF00FF"
    by (simp_all add: stripHash_def hexDigitValue_def upt16)
  from v stringToHex_spec [of "''#FF00FF''"] stringToHex_spec [of "''ff00ff''"]
    stringToHex_spec [of "''zzzzzz''"] stringToHex_spec [of "''#12345''"] stringToHex_spec [of "[]"]
  show ?thesis
    by (simp add: h)
qed

section \<open>Decoding and encoding a channel\<close>

lemma srgbDecode_Fin:
  assumes "0 \<le> x"
  shows "srgbDecode (Fin x) =
     Fin (if x \<le> 0.04045 then x / 12.92 else ((x + 0.055) / 1.055) powr 2.4)"
  using assms by (simp add: srgbDecode_def)

lemma srgbEncode_Fin:
  "srgbEncode (Fin v) =
     Fin (if v \<le> 0.0031308 then v * 12.92 else 1.055 * v powr (1 / 2.4) - 0.055)"
  by (simp add: srgbEncode_def)

lemma decode_above_threshold:
  fixes x :: real
  assumes "0.0431 \<le> x"
  shows "0.0031308 < ((x + 0.055) / 1.055) powr 2.4"
proof -
  define b where "b = (x + 0.055) / 1.055"
  have b: "0.0929 \<le> b" using assms by (simp add: b_def)
  then have pos: "0 < b" by simp
  have "(0.0031308 :: real) ^ 5 < 0.0929 ^ 12" by (simp add: power_divide)
  also have "\<dots> \<le> b ^ 12" using b by (intro power_mono) simp_all
  finally have "(0.0031308 :: real) < b powr (real 12 / real 5)"
    using pos by (intro powr_ratio_gt) simp_all
  then show ?thesis by (simp add: b_def)
qed

lemma encode_decode:
  fixes x :: real
  assumes "0 \<le> x" and "x \<le> 0.04 \<or> 0.0431 \<le> x"
  shows "srgbEncode (srgbDecode (Fin x)) = Fin x"
proof (cases "x \<le> 0.04045")
  case True
  with assms have "x \<le> 0.04" by simp
  then have "x / 12.92 \<le> 0.0031308" by simp
  with True assms(1) show ?thesis
    by (simp add: srgbDecode_Fin srgbEncode_Fin)
next
  case False
  define b where "b = (x + 0.055) / 1.055"
  from False assms have pos: "0 < b" by (simp add: b_def)
  from False have "0.0031308 < b powr 2.4"
    unfolding b_def using assms(2) by (intro decode_above_threshold) simp
  then have ne: "\<not> b powr 2.4 \<le> 0.0031308" by simp
  have "(b powr 2.4) powr (1 / 2.4) = b powr (2.4 * (1 / 2.4))"
    by (simp only: powr_powr)
  also have "\<dots> = b" using pos by simp
  finally have inv: "(b powr 2.4) powr (1 / 2.4) = b" .
  have "srgbDecode (Fin x) = Fin (b powr 2.4)"
    using False assms(1) unfolding b_def by (simp only: srgbDecode_Fin if_False)
  then have "srgbEncode (srgbDecode (Fin x)) = Fin (1.055 * b - 0.055)"
    using ne by (simp only: srgbEncode_Fin if_False inv)
  also have "1.055 * b - 0.055 = x" by (simp add: b_def field_simps)
  finally show ?thesis .
qed

lemma quantize_byte:
  assumes "0 \<le> k"
  shows "quantize (Fin (real_of_int k / 255)) = word_of_int k"
proof -
  have "trunc (real_of_int k + 0.5) = k"
    using assms by (simp add: trunc_def)
  then show ?thesis
    by (simp add: quantize_def)
qed

lemma channel_roundtrip:
  assumes "0 \<le> k" and "k \<le> 255"
  shows "quantize (srgbEncode (srgbDecode (ndiv (Fin (real_of_int k)) (Fin 255)))) = word_of_int k"
proof -
  have "real_of_int k / 255 \<le> 0.04 \<or> 0.0431 \<le> real_of_int k / 255"
  proof (cases "k \<le> 10")
    case True
    then have "real_of_int k \<le> 10" by simp
    then show ?thesis by simp
  next
    case False
    then have "11 \<le> k" by simp
    then have "11 \<le> real_of_int k" by simp
    then show ?thesis by simp
  qed
  moreover have "0 \<le> real_of_int k / 255" using assms by simp
  ultimately have "srgbEncode (srgbDecode (Fin (real_of_int k / 255))) = Fin (real_of_int k / 255)"
    by (intro encode_decode)
  moreover have "ndiv (Fin (real_of_int k)) (Fin 255) = Fin (real_of_int k / 255)" by simp
  ultimately show ?thesis
    by (simp only: quantize_byte [OF assms(1)])
qed

section \<open>Packing three channels\<close>

lemma pack_bytes:
  "push_bit 16 (word_of_int (take_bit 8 (drop_bit 16 n)) :: 32 word) OR
   push_bit 8 (word_of_int (take_bit 8 (drop_bit 8 n))) OR
   word_of_int (take_bit 8 n) = word_of_int (take_bit 24 n)"
  (is "?l = ?r")
proof (rule bit_word_eqI)
  fix k
  assume "k < LENGTH(32)"
  consider "k < 8" | "8 \<le> k" "k < 16" | "16 \<le> k" "k < 24" | "24 \<le> k"
    by linarith
  then show "bit ?l k = bit ?r k"
    by cases (auto simp add: bit_simps)
qed

lemma pack_channels:
  "push_bit 16 (word_of_int (channel 16 n) :: 32 word) OR
   push_bit 8 (word_of_int (channel 8 n)) OR
   word_of_int (channel 0 n) = word_of_int (n mod 2 ^ 24)"
  using pack_bytes [of n]
  by (simp add: channel_def take_bit_eq_mod drop_bit_eq_div)

lemma sint_24: "sint (word_of_int (n mod 2 ^ 24) :: 32 word) = n mod 2 ^ 24"
proof -
  have "sint (word_of_int (take_bit 24 n) :: 32 word) = take_bit 24 n"
    by (simp add: sint_sbintrunc' signed_take_bit_take_bit)
  then show ?thesis by (simp add: take_bit_eq_mod)
qed

lemma hexToLinearRGB_int:
  "hexToLinearRGB (Fin (real_of_int n)) =
     (srgbDecode (ndiv (Fin (real_of_int (channel 16 n))) (Fin 255)),
      srgbDecode (ndiv (Fin (real_of_int (channel 8 n))) (Fin 255)),
      srgbDecode (ndiv (Fin (real_of_int (channel 0 n))) (Fin 255)))"
proof -
  have "sint (signed_drop_bit 16 (word_of_int n :: 32 word) AND 0xFF) = channel 16 n"
       "sint (signed_drop_bit 8 (word_of_int n :: 32 word) AND 0xFF) = channel 8 n"
       "sint ((word_of_int n :: 32 word) AND 0xFF) = channel 0 n"
    by (simp_all add: channel_def channel_sint channel0_sint)
  then show ?thesis
    unfolding hexToLinearRGB_def Let_def fromInt32_def ToInt32.simps trunc_of_int
    by (simp only:)
qed

lemma channel_range: "0 \<le> channel k n" "channel k n \<le> 255"
  by (simp_all add: channel_def) 

lemma srgb_roundtrip_exact:
  "linearRGBtoHex (hexToLinearRGB (Fin (real_of_int n))) = Fin (real_of_int (n mod 2 ^ 24))"
  unfolding hexToLinearRGB_int linearRGBtoHex.simps Let_def
    channel_roundtrip [OF channel_range] pack_channels fromInt32_def sint_24 ..

text \<open>
  C5. For every packed value between \<open>0x000000\<close> and \<open>0xFFFFFF\<close>, decoding it with
  \<^verbatim>\<open>hexToLinearRGB\<close> and encoding the result with \<^verbatim>\<open>linearRGBtoHex\<close> gives a packed value
  each of whose three channels is within 1 of the channel it came from.
\<close>

theorem srgb_roundtrip:
  assumes "0 \<le> n" and "n \<le> 0xFFFFFF"
  shows "\<exists>n'. linearRGBtoHex (hexToLinearRGB (Fin (real_of_int n))) = Fin (real_of_int n') \<and>
           0 \<le> n' \<and> n' \<le> 0xFFFFFF \<and>
           \<bar>channel 16 n' - channel 16 n\<bar> \<le> 1 \<and>
           \<bar>channel 8 n' - channel 8 n\<bar> \<le> 1 \<and>
           \<bar>channel 0 n' - channel 0 n\<bar> \<le> 1"
proof -
  from assms have "n mod 2 ^ 24 = n" by simp
  then have "linearRGBtoHex (hexToLinearRGB (Fin (real_of_int n))) = Fin (real_of_int n)"
    by (simp only: srgb_roundtrip_exact)
  with assms show ?thesis by (intro exI [of _ n]) simp
qed

theorem srgb_roundtrip_witness:
  "\<exists>n'. linearRGBtoHex (hexToLinearRGB (Fin (real_of_int 0x0A80FF))) = Fin (real_of_int n') \<and>
        \<bar>channel 16 n' - 0x0A\<bar> \<le> 1 \<and> \<bar>channel 8 n' - 0x80\<bar> \<le> 1 \<and> \<bar>channel 0 n' - 0xFF\<bar> \<le> 1"
proof -
  have c: "channel 16 0x0A80FF = 0x0A" "channel 8 0x0A80FF = 0x80" "channel 0 0x0A80FF = 0xFF"
    by (simp_all add: channel_def)
  have "(0 :: int) \<le> 0x0A80FF" "(0x0A80FF :: int) \<le> 0xFFFFFF" by simp_all
  from srgb_roundtrip [OF this] show ?thesis
    unfolding c by blast
qed

section \<open>The mix at its two ends\<close>

lemma cube_cbrt:
  fixes x :: real
  assumes "0 \<le> x"
  shows "x powr (1 / 3) * x powr (1 / 3) * x powr (1 / 3) = x"
proof (cases "x = 0")
  case True
  then show ?thesis by simp
next
  case False
  with assms have "0 < x" by (simp add: less_le)
  have "x powr (1 / 3) * x powr (1 / 3) * x powr (1 / 3) = x powr (1 / 3 + 1 / 3 + 1 / 3)"
    by (simp only: powr_add)
  also have "\<dots> = x powr 1" by simp
  also have "\<dots> = x" using \<open>0 < x\<close> by simp
  finally show ?thesis .
qed

lemma roundtrip_matrix:
  fixes a0 a1 a2 :: real
  shows "mat3MultiplyVec3 kLMStoCONE (mat3MultiplyVec3 kCONEtoLMS (Fin a0, Fin a1, Fin a2)) =
     (Fin (a0 + (196448752775 * a0 + 5531874305456 * a1 + 3141991700117 * a2) / 10 ^ 20),
      Fin (a1 - (1431173853754 * a0 + 1816722366406 * a1 + 440342504343 * a2) / 10 ^ 20),
      Fin (a2 + (211067855997 * a0 + 336279046030 * a1 - 4634165571868 * a2) / 10 ^ 20))"
proof -
  have "4.0767245293 * (0.4121656120 * a0 + 0.2118591070 * a1 + 0.0883097947 * a2) +
        - 1.2681437731 * (0.5362752080 * a0 + 0.6807189584 * a1 + 0.2818474174 * a2) +
        - 0.0041119885 * (0.0514575653 * a0 + 0.1074065790 * a1 + 0.6302613616 * a2) =
        a0 + (196448752775 * a0 + 5531874305456 * a1 + 3141991700117 * a2) / 10 ^ 20"
    by (simp add: field_simps)
  moreover have "- 3.3072168827 * (0.4121656120 * a0 + 0.2118591070 * a1 + 0.0883097947 * a2) +
        2.6093323231 * (0.5362752080 * a0 + 0.6807189584 * a1 + 0.2818474174 * a2) +
        - 0.7034763098 * (0.0514575653 * a0 + 0.1074065790 * a1 + 0.6302613616 * a2) =
        a1 - (1431173853754 * a0 + 1816722366406 * a1 + 440342504343 * a2) / 10 ^ 20"
    by (simp add: field_simps)
  moreover have "0.2307590544 * (0.4121656120 * a0 + 0.2118591070 * a1 + 0.0883097947 * a2) +
        - 0.3411344290 * (0.5362752080 * a0 + 0.6807189584 * a1 + 0.2818474174 * a2) +
        1.7068625689 * (0.0514575653 * a0 + 0.1074065790 * a1 + 0.6302613616 * a2) =
        a2 + (211067855997 * a0 + 336279046030 * a1 - 4634165571868 * a2) / 10 ^ 20"
    by (simp add: field_simps)
  ultimately show ?thesis
    unfolding cone_finite kLMStoCONE_def mat3MultiplyVec3.simps nmul.simps nadd.simps
    by (simp only:)
qed

lemma back_and_forth:
  assumes "0 \<le> a0" "a0 \<le> 1" "0 \<le> a1" "a1 \<le> 1" "0 \<le> a2" "a2 \<le> 1"
  shows "closeTo (1 / 10 ^ 6)
     (mat3MultiplyVec3 kLMStoCONE (mat3MultiplyVec3 kCONEtoLMS (Fin a0, Fin a1, Fin a2)))
     (Fin a0, Fin a1, Fin a2)"
proof -
  have "\<bar>(196448752775 * a0 + 5531874305456 * a1 + 3141991700117 * a2) / 10 ^ 20\<bar> \<le> 1 / 10 ^ 6"
    using assms by (simp add: abs_le_iff)
  moreover have "\<bar>(1431173853754 * a0 + 1816722366406 * a1 + 440342504343 * a2) / 10 ^ 20\<bar> \<le> 1 / 10 ^ 6"
    using assms by (simp add: abs_le_iff)
  moreover have "\<bar>(211067855997 * a0 + 336279046030 * a1 - 4634165571868 * a2) / 10 ^ 20\<bar> \<le> 1 / 10 ^ 6"
    using assms by (simp add: abs_le_iff)
  ultimately show ?thesis
    unfolding roundtrip_matrix closeTo.simps by simp
qed

lemma oklabMix_Fin:
  assumes "mat3MultiplyVec3 kCONEtoLMS colA = (Fin xa0, Fin xa1, Fin xa2)"
    and "mat3MultiplyVec3 kCONEtoLMS colB = (Fin xb0, Fin xb1, Fin xb2)"
    and "0 \<le> xa0" "0 \<le> xa1" "0 \<le> xa2" "0 \<le> xb0" "0 \<le> xb1" "0 \<le> xb2"
  shows "oklabMix colA colB (Fin h) =
     mat3MultiplyVec3 kLMStoCONE
       (Fin ((xa0 powr (1 / 3) * (1 - h) + xb0 powr (1 / 3) * h) ^ 3),
        Fin ((xa1 powr (1 / 3) * (1 - h) + xb1 powr (1 / 3) * h) ^ 3),
        Fin ((xa2 powr (1 / 3) * (1 - h) + xb2 powr (1 / 3) * h) ^ 3))"
  unfolding oklabMix_def Let_def assms(1,2) powVec3.simps
  using assms(3-8)
  by (simp only: pow_third_nonneg mix.simps nsub_Fin nmul.simps nadd.simps cube3.simps
      power3_eq_cube)

lemma cbrt_cubed:
  fixes x :: real
  assumes "0 \<le> x"
  shows "(x powr (1 / 3)) ^ 3 = x"
  using cube_cbrt [OF assms] by (simp only: power3_eq_cube)

lemma cone_nonneg:
  fixes a0 a1 a2 :: real
  assumes "0 \<le> a0" "0 \<le> a1" "0 \<le> a2"
  shows "0 \<le> 0.4121656120 * a0 + 0.2118591070 * a1 + 0.0883097947 * a2"
        "0 \<le> 0.5362752080 * a0 + 0.6807189584 * a1 + 0.2818474174 * a2"
        "0 \<le> 0.0514575653 * a0 + 0.1074065790 * a1 + 0.6302613616 * a2"
  using assms by simp_all

lemma oklabMix_ends:
  assumes "0 \<le> a0" "0 \<le> a1" "0 \<le> a2" "0 \<le> b0" "0 \<le> b1" "0 \<le> b2"
  shows "oklabMix (Fin a0, Fin a1, Fin a2) (Fin b0, Fin b1, Fin b2) (Fin 0) =
           mat3MultiplyVec3 kLMStoCONE (mat3MultiplyVec3 kCONEtoLMS (Fin a0, Fin a1, Fin a2))"
    and "oklabMix (Fin a0, Fin a1, Fin a2) (Fin b0, Fin b1, Fin b2) (Fin 1) =
           mat3MultiplyVec3 kLMStoCONE (mat3MultiplyVec3 kCONEtoLMS (Fin b0, Fin b1, Fin b2))"
proof -
  note a = cone_nonneg [OF assms(1-3)] and b = cone_nonneg [OF assms(4-6)]
  note m = oklabMix_Fin [OF cone_finite cone_finite a b]
  have z: "x * (1 - 0) + y * 0 = x" "x * (1 - 1) + y * 1 = y" for x y :: real
    by simp_all
  show "oklabMix (Fin a0, Fin a1, Fin a2) (Fin b0, Fin b1, Fin b2) (Fin 0) =
           mat3MultiplyVec3 kLMStoCONE (mat3MultiplyVec3 kCONEtoLMS (Fin a0, Fin a1, Fin a2))"
    unfolding m z cone_finite by (simp only: cbrt_cubed a)
  show "oklabMix (Fin a0, Fin a1, Fin a2) (Fin b0, Fin b1, Fin b2) (Fin 1) =
           mat3MultiplyVec3 kLMStoCONE (mat3MultiplyVec3 kCONEtoLMS (Fin b0, Fin b1, Fin b2))"
    unfolding m z cone_finite by (simp only: cbrt_cubed b)
qed

text \<open>
  C6. For in-gamut colours \<open>A\<close> and \<open>B\<close>, the mix at ratio 0 is \<open>A\<close> and the mix at
  ratio 1 is \<open>B\<close>, each component within \<open>10\<^sup>-\<^sup>6\<close>. (The two matrices are inverse to each
  other up to their tenth decimal only, so the mix is not \<open>A\<close> or \<open>B\<close> itself.)
\<close>

theorem oklabMix_identity:
  assumes "inGamut colA" and "inGamut colB"
  shows "closeTo (1 / 10 ^ 6) (oklabMix colA colB (Fin 0)) colA \<and>
         closeTo (1 / 10 ^ 6) (oklabMix colA colB (Fin 1)) colB"
proof -
  from assms(1) obtain a0 a1 a2 where A: "colA = (Fin a0, Fin a1, Fin a2)"
    and a: "0 \<le> a0" "a0 \<le> 1" "0 \<le> a1" "a1 \<le> 1" "0 \<le> a2" "a2 \<le> 1"
    by (rule inGamut_cases)
  from assms(2) obtain b0 b1 b2 where B: "colB = (Fin b0, Fin b1, Fin b2)"
    and b: "0 \<le> b0" "b0 \<le> 1" "0 \<le> b1" "b1 \<le> 1" "0 \<le> b2" "b2 \<le> 1"
    by (rule inGamut_cases)
  note e = oklabMix_ends [OF a(1,3,5) b(1,3,5)]
  have "closeTo (1 / 10 ^ 6) (oklabMix colA colB (Fin 0)) colA"
    unfolding A B e(1) using a by (rule back_and_forth)
  moreover have "closeTo (1 / 10 ^ 6) (oklabMix colA colB (Fin 1)) colB"
    unfolding A B e(2) using b by (rule back_and_forth)
  ultimately show ?thesis ..
qed

theorem oklabMix_identity_witness:
  "closeTo (1 / 10 ^ 6) (oklabMix (Fin 1, Fin 0, Fin (1 / 2)) (Fin 0, Fin (1 / 4), Fin 1) (Fin 0))
     (Fin 1, Fin 0, Fin (1 / 2)) \<and>
   closeTo (1 / 10 ^ 6) (oklabMix (Fin 1, Fin 0, Fin (1 / 2)) (Fin 0, Fin (1 / 4), Fin 1) (Fin 1))
     (Fin 0, Fin (1 / 4), Fin 1)"
proof -
  have "inGamut (Fin 1, Fin 0, Fin (1 / 2))" "inGamut (Fin 0, Fin (1 / 4), Fin 1)" by simp_all
  then show ?thesis by (rule oklabMix_identity)
qed

section \<open>Symmetry of the even mix\<close>

lemma mix_half_commute: "mix a b (Fin 0.5) = mix b a (Fin 0.5)"
proof -
  obtain a0 a1 a2 where a: "a = (a0, a1, a2)" by (cases a) auto
  obtain b0 b1 b2 where b: "b = (b0, b1, b2)" by (cases b) auto
  have h: "nsub (Fin 1) (Fin 0.5) = Fin 0.5" by simp
  show ?thesis
    unfolding a b mix.simps h
    by (simp only: nadd_commute [of "nmul a0 _"] nadd_commute [of "nmul a1 _"]
        nadd_commute [of "nmul a2 _"])
qed

lemma oklabMix_gamut:
  assumes "0 \<le> a0" "0 \<le> a1" "0 \<le> a2" "0 \<le> b0" "0 \<le> b1" "0 \<le> b2"
  shows "finiteVec (oklabMix (Fin a0, Fin a1, Fin a2) (Fin b0, Fin b1, Fin b2) (Fin h))"
proof -
  have "0 \<le> 0.4121656120 * a0 + 0.2118591070 * a1 + 0.0883097947 * a2"
       "0 \<le> 0.5362752080 * a0 + 0.6807189584 * a1 + 0.2818474174 * a2"
       "0 \<le> 0.0514575653 * a0 + 0.1074065790 * a1 + 0.6302613616 * a2"
       "0 \<le> 0.4121656120 * b0 + 0.2118591070 * b1 + 0.0883097947 * b2"
       "0 \<le> 0.5362752080 * b0 + 0.6807189584 * b1 + 0.2818474174 * b2"
       "0 \<le> 0.0514575653 * b0 + 0.1074065790 * b1 + 0.6302613616 * b2"
    using assms by simp_all
  then show ?thesis
    unfolding oklabMix_def Let_def cone_finite powVec3.simps
    by (simp only: pow_third_nonneg) (simp add: kLMStoCONE_def)
qed

text \<open>
  C7. For in-gamut colours the mix at ratio one half does not depend on the order of
  its two colour arguments: both orders give the same three finite components.
\<close>

theorem oklabMix_half_symmetric:
  assumes "inGamut colA" and "inGamut colB"
  shows "oklabMix colA colB (Fin 0.5) = oklabMix colB colA (Fin 0.5) \<and>
         finiteVec (oklabMix colA colB (Fin 0.5))"
proof -
  have "oklabMix colA colB (Fin 0.5) = oklabMix colB colA (Fin 0.5)"
    unfolding oklabMix_def Let_def by (simp only: mix_half_commute)
  moreover from assms have "finiteVec (oklabMix colA colB (Fin 0.5))"
    by (elim inGamut_cases) (simp only: oklabMix_gamut)
  ultimately show ?thesis ..
qed

theorem oklabMix_half_symmetric_witness:
  "oklabMix (Fin 1, Fin 0, Fin 0) (Fin 0, Fin 0, Fin 1) (Fin 0.5) =
   oklabMix (Fin 0, Fin 0, Fin 1) (Fin 1, Fin 0, Fin 0) (Fin 0.5) \<and>
   finiteVec (oklabMix (Fin 1, Fin 0, Fin 0) (Fin 0, Fin 0, Fin 1) (Fin 0.5))"
proof -
  have "inGamut (Fin 1, Fin 0, Fin 0)" "inGamut (Fin 0, Fin 0, Fin 1)" by simp_all
  then show ?thesis by (rule oklabMix_half_symmetric)
qed

section \<open>The encoder\<close>

lemma srgbEncode_spec: "srgbEncode (Fin c) = Fin (srgb_encode c)"
  by (simp only: srgbEncode_Fin srgb_encode_def)

lemma quantize_spec: "quantize (Fin e) = word_of_int (scale8 e)"
  by (simp add: quantize_def scale8_def)

lemma channel_of_sum:
  assumes "0 \<le> r" "r \<le> 255" "0 \<le> g" "g \<le> 255" "0 \<le> b" "b \<le> 255"
  shows "channel 16 (r * 65536 + g * 256 + b) = r"
    and "channel 8 (r * 65536 + g * 256 + b) = g"
    and "channel 0 (r * 65536 + g * 256 + b) = b"
    and "(r * 65536 + g * 256 + b) mod 2 ^ 24 = r * 65536 + g * 256 + b"
proof -
  have e: "r * 65536 + g * 256 + b = (r * 256 + g) * 256 + b" by simp
  have "((r * 256 + g) * 256 + b) mod 256 = b mod 256"
    by (rule mod_mult_self3)
  also have "\<dots> = b" using assms by simp
  finally have m0: "((r * 256 + g) * 256 + b) mod 256 = b" .
  have "((r * 256 + g) * 256 + b) div 256 = r * 256 + g + b div 256"
    by (rule div_mult_self3) simp
  also have "\<dots> = r * 256 + g" using assms by simp
  finally have d: "((r * 256 + g) * 256 + b) div 256 = r * 256 + g" .
  have "(r * 256 + g) mod 256 = g mod 256"
    by (rule mod_mult_self3)
  also have "\<dots> = g" using assms by simp
  finally have m1: "(r * 256 + g) mod 256 = g" .
  have p: "(2 :: int) ^ 0 = 1" "(2 :: int) ^ 8 = 256" by simp_all
  show "channel 0 (r * 65536 + g * 256 + b) = b"
    unfolding e channel_def p by (simp only: div_by_1 m0)
  show "channel 8 (r * 65536 + g * 256 + b) = g"
    unfolding e channel_def p by (simp only: d m1)
  show "channel 16 (r * 65536 + g * 256 + b) = r"
    unfolding channel_def using assms by simp
  show "(r * 65536 + g * 256 + b) mod 2 ^ 24 = r * 65536 + g * 256 + b"
    using assms by simp
qed

lemma encode_4096: "srgb_encode 4096 = 33.705"
proof -
  have "(4096 :: real) powr (real 5 / real 12) = (4096 ^ 5) powr (1 / real 12)"
    by (rule powr_ratio) simp_all
  also have "(4096 :: real) ^ 5 = 32 ^ 12" by simp
  also have "((32 :: real) ^ 12) powr (1 / real 12) = 32"
    by (rule root_of_power) simp_all
  finally have "(4096 :: real) powr (1 / 2.4) = 32" by simp
  then show ?thesis by (simp add: srgb_encode_def)
qed

lemma linearRGBtoHex_in_range:
  assumes "0 \<le> scale8 (srgb_encode r)" "scale8 (srgb_encode r) \<le> 255"
    and "0 \<le> scale8 (srgb_encode g)" "scale8 (srgb_encode g) \<le> 255"
    and "0 \<le> scale8 (srgb_encode b)" "scale8 (srgb_encode b) \<le> 255"
  shows "linearRGBtoHex (Fin r, Fin g, Fin b) =
     Fin (real_of_int (scale8 (srgb_encode r) * 65536 + scale8 (srgb_encode g) * 256 +
                       scale8 (srgb_encode b)))"
proof -
  define n where
    "n = scale8 (srgb_encode r) * 65536 + scale8 (srgb_encode g) * 256 + scale8 (srgb_encode b)"
  note c = channel_of_sum [OF assms, folded n_def]
  have "push_bit 16 (word_of_int (scale8 (srgb_encode r)) :: 32 word) OR
        push_bit 8 (word_of_int (scale8 (srgb_encode g))) OR
        word_of_int (scale8 (srgb_encode b)) = word_of_int (n mod 2 ^ 24)"
    using pack_channels [of n] by (simp only: c)
  then have "linearRGBtoHex (Fin r, Fin g, Fin b) = fromInt32 (word_of_int (n mod 2 ^ 24))"
    unfolding linearRGBtoHex.simps Let_def srgbEncode_spec quantize_spec by (simp only:)
  also have "\<dots> = Fin (real_of_int n)"
    unfolding fromInt32_def sint_24 by (simp only: c)
  finally show ?thesis unfolding n_def .
qed

lemma word_of_sint: "word_of_int (sint w) = (w :: 32 word)"
  by simp

lemma ToInt32_fromInt32: "ToInt32 (fromInt32 w) = w"
  by (simp only: fromInt32_def ToInt32.simps trunc_of_int word_of_sint)

lemma linearRGBtoHex_words:
  "linearRGBtoHex (r, g, b) =
     fromInt32 (push_bit 16 (quantize (srgbEncode r)) OR push_bit 8 (quantize (srgbEncode g)) OR
                quantize (srgbEncode b))"
  by (simp only: linearRGBtoHex.simps Let_def)

lemma pack_words:
  "word_of_int (pack24 (sint wr) (sint wg) (sint wb)) = push_bit 16 wr OR push_bit 8 wg OR (wb :: 32 word)"
  by (simp only: pack24_def of_int_or_eq of_int_push_bit word_of_sint)

lemma words_in_range:
  fixes wr wg wb :: "32 word"
  assumes "0 \<le> sint wr" "sint wr \<le> 255" "0 \<le> sint wg" "sint wg \<le> 255"
    and "0 \<le> sint wb" "sint wb \<le> 255"
  shows "fromInt32 (push_bit 16 wr OR push_bit 8 wg OR wb) =
           Fin (real_of_int (sint wr * 65536 + sint wg * 256 + sint wb))"
proof -
  define n where "n = sint wr * 65536 + sint wg * 256 + sint wb"
  note c = channel_of_sum [OF assms, folded n_def]
  have "push_bit 16 (word_of_int (sint wr) :: 32 word) OR push_bit 8 (word_of_int (sint wg)) OR
        word_of_int (sint wb) = word_of_int (n mod 2 ^ 24)"
    using pack_channels [of n] by (simp only: c)
  then have "push_bit 16 wr OR push_bit 8 wg OR wb = word_of_int (n mod 2 ^ 24)"
    by (simp only: word_of_sint)
  then have "fromInt32 (push_bit 16 wr OR push_bit 8 wg OR wb) = Fin (real_of_int (n mod 2 ^ 24))"
    by (simp only: fromInt32_def sint_24)
  then show ?thesis
    unfolding n_def [symmetric] by (simp only: c)
qed

lemma quantize_trunc:
  assumes "nadd (nmul e (Fin 255)) (Fin 0.5) = Fin x"
  shows "quantize e = word_of_int (if 0 \<le> x then \<lfloor>x\<rfloor> else \<lceil>x\<rceil>)"
  using assms by (simp add: quantize_def trunc_def)

lemma quantize_sint:
  assumes "nadd (nmul e (Fin 255)) (Fin 0.5) = Fin x" and "- (2 ^ 31) \<le> x" and "x < 2 ^ 31"
  shows "sint (quantize e) = (if 0 \<le> x then \<lfloor>x\<rfloor> else \<lceil>x\<rceil>)"
proof -
  let ?t = "if 0 \<le> x then \<lfloor>x\<rfloor> else \<lceil>x\<rceil>"
  have "- (2 ^ 31) \<le> ?t" "?t < 2 ^ 31"
    using assms(2,3) by (auto simp add: le_ceiling_iff floor_less_iff ceiling_less_iff le_floor_iff)
  then have "sint (word_of_int ?t :: 32 word) = ?t"
    by (simp add: sint_sbintrunc' signed_take_bit_int_eq_self)
  then show ?thesis by (simp only: quantize_trunc [OF assms(1)])
qed

lemma quantize_nonfinite:
  assumes "nadd (nmul e (Fin 255)) (Fin 0.5) \<in> {NaN, PInf, NInf}"
  shows "quantize e = 0"
  using assms by (auto simp add: quantize_def)

lemma packed_bytes:
  fixes wr wg wb :: "32 word"
  shows "(push_bit 16 wr OR push_bit 8 wg OR wb) AND 0xFF = wb AND 0xFF"
    and "signed_drop_bit 8 (push_bit 16 wr OR push_bit 8 wg OR wb) AND 0xFF =
           (wg OR signed_drop_bit 8 wb) AND 0xFF"
    and "signed_drop_bit 16 (push_bit 16 wr OR push_bit 8 wg OR wb) AND 0xFF =
           (wr OR signed_drop_bit 8 wg OR signed_drop_bit 16 wb) AND 0xFF"
  unfolding w255
  by (rule bit_word_eqI; auto simp add: bit_simps)+

lemma unclamped_negative: "linearRGBtoHex (Fin (- 1), Fin 0, Fin 0) = Fin (- 215875584)"
  by code_simp

lemma unclamped_green: "linearRGBtoHex (Fin 0, Fin 4096, Fin 0) = Fin 0x219300"
proof -
  have "scale8 (srgb_encode 4096) = 8595"
    unfolding encode_4096 by (simp add: scale8_def trunc_def)
  then have "quantize (srgbEncode (Fin 4096)) = 8595"
    by (simp only: srgbEncode_spec quantize_spec) simp
  moreover have "quantize (srgbEncode (Fin 0)) = 0"
    by (simp add: srgbEncode_spec quantize_spec scale8_def trunc_def srgb_encode_def)
  ultimately show ?thesis
    unfolding linearRGBtoHex_words by (simp add: fromInt32_def)
qed

text \<open>
  C8. \<^verbatim>\<open>linearRGBtoHex\<close> encodes each channel with the piecewise sRGB function,
  multiplies by 255, adds 0.5 and converts the sum to a 32-bit integer, and packs the
  three integers by shift and or. Every step is an operation of the program on its own
  numbers, so the statement speaks of the values that the program computes:

    \<^item> the encoded channel is the product by 12.92 when the channel is at most 0.0031308,
      and 1.055 times the power with exponent 1 / 2.4, less 0.055, otherwise;
    \<^item> when the sum computed from an encoded channel is the finite number \<open>x\<close>, its
      integer is \<open>x\<close> truncated toward zero and taken modulo \<open>2 ^ 32\<close>, which is the floor
      of \<open>x\<close> when \<open>x\<close> is not negative, and that integer itself within the 32-bit range;
      a sum that is not finite gives 0;
    \<^item> the result is the 32-bit value of the three integers packed by shift and or, with
      no clamping;
    \<^item> integers within 0..255 give the 24-bit value \<open>0xRRGGBB\<close>, from which each is read
      back as a channel;
    \<^item> in general the blue byte of the result is the low byte of the blue integer, the
      green byte takes in the bits 8 to 15 of the blue integer, and the red byte those of
      the green integer and the bits 16 to 23 of the blue one: a negative channel makes
      the packed value negative, and a green channel above 255 spills into the red byte.
\<close>

theorem linearRGBtoHex_spec:
  fixes r g b c e :: number and x :: real
  shows
  "srgbEncode c =
     (if nle c (Fin 0.0031308) then nmul c (Fin 12.92)
      else nsub (nmul (Fin 1.055) (pow c (ndiv (Fin 1) (Fin 2.4)))) (Fin 0.055)) \<and>
   (nadd (nmul e (Fin 255)) (Fin 0.5) = Fin x \<longrightarrow>
      quantize e = word_of_int (if 0 \<le> x then \<lfloor>x\<rfloor> else \<lceil>x\<rceil>) \<and>
      (- (2 ^ 31) \<le> x \<and> x < 2 ^ 31 \<longrightarrow>
         sint (quantize e) = (if 0 \<le> x then \<lfloor>x\<rfloor> else \<lceil>x\<rceil>))) \<and>
   (nadd (nmul e (Fin 255)) (Fin 0.5) \<in> {NaN, PInf, NInf} \<longrightarrow> quantize e = 0) \<and>
   (let qr = quantize (srgbEncode r); qg = quantize (srgbEncode g); qb = quantize (srgbEncode b);
        w = ToInt32 (linearRGBtoHex (r, g, b))
    in linearRGBtoHex (r, g, b) = fromInt32 (word_of_int (pack24 (sint qr) (sint qg) (sint qb))) \<and>
       (sint qr \<in> {0 .. 255} \<and> sint qg \<in> {0 .. 255} \<and> sint qb \<in> {0 .. 255} \<longrightarrow>
          linearRGBtoHex (r, g, b) =
            Fin (real_of_int (sint qr * 65536 + sint qg * 256 + sint qb)) \<and>
          channel 16 (sint qr * 65536 + sint qg * 256 + sint qb) = sint qr \<and>
          channel 8 (sint qr * 65536 + sint qg * 256 + sint qb) = sint qg \<and>
          channel 0 (sint qr * 65536 + sint qg * 256 + sint qb) = sint qb) \<and>
       w AND 0xFF = qb AND 0xFF \<and>
       signed_drop_bit 8 w AND 0xFF = (qg OR signed_drop_bit 8 qb) AND 0xFF \<and>
       signed_drop_bit 16 w AND 0xFF =
         (qr OR signed_drop_bit 8 qg OR signed_drop_bit 16 qb) AND 0xFF) \<and>
   linearRGBtoHex (Fin (- 1), Fin 0, Fin 0) = Fin (- 215875584) \<and>
   linearRGBtoHex (Fin 0, Fin 4096, Fin 0) = Fin 0x219300"
proof -
  have enc: "srgbEncode c =
     (if nle c (Fin 0.0031308) then nmul c (Fin 12.92)
      else nsub (nmul (Fin 1.055) (pow c (ndiv (Fin 1) (Fin 2.4)))) (Fin 0.055))"
    by (rule srgbEncode_def)
  have q: "nadd (nmul e (Fin 255)) (Fin 0.5) = Fin x \<longrightarrow>
      quantize e = word_of_int (if 0 \<le> x then \<lfloor>x\<rfloor> else \<lceil>x\<rceil>) \<and>
      (- (2 ^ 31) \<le> x \<and> x < 2 ^ 31 \<longrightarrow>
         sint (quantize e) = (if 0 \<le> x then \<lfloor>x\<rfloor> else \<lceil>x\<rceil>))"
    using quantize_trunc [of e x] quantize_sint [of e x] by blast
  have nf: "nadd (nmul e (Fin 255)) (Fin 0.5) \<in> {NaN, PInf, NInf} \<longrightarrow> quantize e = 0"
    using quantize_nonfinite [of e] by blast
  define qr qg qb where "qr = quantize (srgbEncode r)" and "qg = quantize (srgbEncode g)"
    and "qb = quantize (srgbEncode b)"
  define w where "w = ToInt32 (linearRGBtoHex (r, g, b))"
  have l: "linearRGBtoHex (r, g, b) = fromInt32 (push_bit 16 qr OR push_bit 8 qg OR qb)"
    unfolding qr_def qg_def qb_def by (rule linearRGBtoHex_words)
  have w: "w = push_bit 16 qr OR push_bit 8 qg OR qb"
    unfolding w_def l by (rule ToInt32_fromInt32)
  have p: "linearRGBtoHex (r, g, b) = fromInt32 (word_of_int (pack24 (sint qr) (sint qg) (sint qb)))"
    unfolding l by (simp only: pack_words)
  have rng: "sint qr \<in> {0 .. 255} \<and> sint qg \<in> {0 .. 255} \<and> sint qb \<in> {0 .. 255} \<longrightarrow>
          linearRGBtoHex (r, g, b) =
            Fin (real_of_int (sint qr * 65536 + sint qg * 256 + sint qb)) \<and>
          channel 16 (sint qr * 65536 + sint qg * 256 + sint qb) = sint qr \<and>
          channel 8 (sint qr * 65536 + sint qg * 256 + sint qb) = sint qg \<and>
          channel 0 (sint qr * 65536 + sint qg * 256 + sint qb) = sint qb"
    unfolding l atLeastAtMost_iff
    using words_in_range [of qr qg qb] channel_of_sum [of "sint qr" "sint qg" "sint qb"]
    by blast
  have bytes: "w AND 0xFF = qb AND 0xFF"
    "signed_drop_bit 8 w AND 0xFF = (qg OR signed_drop_bit 8 qb) AND 0xFF"
    "signed_drop_bit 16 w AND 0xFF = (qr OR signed_drop_bit 8 qg OR signed_drop_bit 16 qb) AND 0xFF"
    unfolding w by (rule packed_bytes)+
  have "let qr = quantize (srgbEncode r); qg = quantize (srgbEncode g); qb = quantize (srgbEncode b);
        w = ToInt32 (linearRGBtoHex (r, g, b))
    in linearRGBtoHex (r, g, b) = fromInt32 (word_of_int (pack24 (sint qr) (sint qg) (sint qb))) \<and>
       (sint qr \<in> {0 .. 255} \<and> sint qg \<in> {0 .. 255} \<and> sint qb \<in> {0 .. 255} \<longrightarrow>
          linearRGBtoHex (r, g, b) =
            Fin (real_of_int (sint qr * 65536 + sint qg * 256 + sint qb)) \<and>
          channel 16 (sint qr * 65536 + sint qg * 256 + sint qb) = sint qr \<and>
          channel 8 (sint qr * 65536 + sint qg * 256 + sint qb) = sint qg \<and>
          channel 0 (sint qr * 65536 + sint qg * 256 + sint qb) = sint qb) \<and>
       w AND 0xFF = qb AND 0xFF \<and>
       signed_drop_bit 8 w AND 0xFF = (qg OR signed_drop_bit 8 qb) AND 0xFF \<and>
       signed_drop_bit 16 w AND 0xFF =
         (qr OR signed_drop_bit 8 qg OR signed_drop_bit 16 qb) AND 0xFF"
    unfolding Let_def qr_def [symmetric] qg_def [symmetric] qb_def [symmetric] w_def [symmetric]
    using p rng bytes by (intro conjI)
  with enc q nf unclamped_negative unclamped_green show ?thesis
    by (intro conjI)
qed

theorem linearRGBtoHex_spec_witness:
  "nadd (nmul (Fin 1) (Fin 255)) (Fin 0.5) = Fin 255.5 \<and> - (2 ^ 31) \<le> (255.5 :: real) \<and>
   (255.5 :: real) < 2 ^ 31 \<and> quantize (Fin 1) = 255 \<and> sint (quantize (Fin 1)) = 255 \<and>
   nadd (nmul (Fin (- 1)) (Fin 255)) (Fin 0.5) = Fin (- 254.5) \<and> - (2 ^ 31) \<le> (- 254.5 :: real) \<and>
   (- 254.5 :: real) < 2 ^ 31 \<and> sint (quantize (Fin (- 1))) = - 254 \<and>
   nadd (nmul NaN (Fin 255)) (Fin 0.5) \<in> {NaN, PInf, NInf} \<and> quantize NaN = 0 \<and>
   sint (quantize (srgbEncode (Fin 1))) \<in> {0 .. 255} \<and>
   sint (quantize (srgbEncode (Fin 0))) \<in> {0 .. 255} \<and>
   sint (quantize (srgbEncode (Fin 0.001))) \<in> {0 .. 255} \<and>
   linearRGBtoHex (Fin 1, Fin 0, Fin 0.001) = Fin 0xFF0003 \<and>
   channel 16 0xFF0003 = 255 \<and> channel 8 0xFF0003 = 0 \<and> channel 0 0xFF0003 = 3"
proof -
  have h1: "nadd (nmul (Fin 1) (Fin 255)) (Fin 0.5) = Fin 255.5" by simp
  have h2: "nadd (nmul (Fin (- 1)) (Fin 255)) (Fin 0.5) = Fin (- 254.5)" by simp
  have h3: "nadd (nmul NaN (Fin 255)) (Fin 0.5) \<in> {NaN, PInf, NInf}" by simp
  have b1: "- (2 ^ 31) \<le> (255.5 :: real)" "(255.5 :: real) < 2 ^ 31" by simp_all
  have b2: "- (2 ^ 31) \<le> (- 254.5 :: real)" "(- 254.5 :: real) < 2 ^ 31" by simp_all
  have q: "sint (quantize (srgbEncode (Fin 1))) = 255" "sint (quantize (srgbEncode (Fin 0))) = 0"
    "sint (quantize (srgbEncode (Fin 0.001))) = 3"
    by (simp_all add: srgbEncode_spec quantize_spec scale8_def trunc_def srgb_encode_def)
  have rng: "sint (quantize (srgbEncode (Fin 1))) \<in> {0 .. 255}"
    "sint (quantize (srgbEncode (Fin 0))) \<in> {0 .. 255}"
    "sint (quantize (srgbEncode (Fin 0.001))) \<in> {0 .. 255}"
    unfolding q by simp_all
  note t1 = linearRGBtoHex_spec [where r = "Fin 1" and g = "Fin 0" and b = "Fin 0.001"
      and c = "Fin 1" and e = "Fin 1" and x = "255.5"]
  from t1 h1 b1
  have "quantize (Fin 1) = word_of_int (if 0 \<le> (255.5 :: real) then \<lfloor>255.5 :: real\<rfloor> else \<lceil>255.5 :: real\<rceil>)"
    "sint (quantize (Fin 1)) = (if 0 \<le> (255.5 :: real) then \<lfloor>255.5 :: real\<rfloor> else \<lceil>255.5 :: real\<rceil>)"
    by blast+
  then have e1: "quantize (Fin 1) = 255" "sint (quantize (Fin 1)) = 255"
    by simp_all
  from linearRGBtoHex_spec [where r = "Fin 1" and g = "Fin 0" and b = "Fin 0.001"
      and c = "Fin 1" and e = "Fin (- 1)" and x = "- 254.5"] h2 b2
  have "sint (quantize (Fin (- 1))) =
      (if 0 \<le> (- 254.5 :: real) then \<lfloor>- 254.5 :: real\<rfloor> else \<lceil>- 254.5 :: real\<rceil>)"
    by blast
  then have e2: "sint (quantize (Fin (- 1))) = - 254"
    by simp
  from linearRGBtoHex_spec [where r = "Fin 1" and g = "Fin 0" and b = "Fin 0.001"
      and c = "Fin 1" and e = NaN and x = 0] h3
  have e3: "quantize NaN = 0"
    by blast
  from t1 have "sint (quantize (srgbEncode (Fin 1))) \<in> {0 .. 255} \<and>
      sint (quantize (srgbEncode (Fin 0))) \<in> {0 .. 255} \<and>
      sint (quantize (srgbEncode (Fin 0.001))) \<in> {0 .. 255} \<longrightarrow>
      linearRGBtoHex (Fin 1, Fin 0, Fin 0.001) =
        Fin (real_of_int (sint (quantize (srgbEncode (Fin 1))) * 65536 +
                          sint (quantize (srgbEncode (Fin 0))) * 256 +
                          sint (quantize (srgbEncode (Fin 0.001))))) \<and>
      channel 16 (sint (quantize (srgbEncode (Fin 1))) * 65536 +
                  sint (quantize (srgbEncode (Fin 0))) * 256 +
                  sint (quantize (srgbEncode (Fin 0.001)))) = sint (quantize (srgbEncode (Fin 1))) \<and>
      channel 8 (sint (quantize (srgbEncode (Fin 1))) * 65536 +
                 sint (quantize (srgbEncode (Fin 0))) * 256 +
                 sint (quantize (srgbEncode (Fin 0.001)))) = sint (quantize (srgbEncode (Fin 0))) \<and>
      channel 0 (sint (quantize (srgbEncode (Fin 1))) * 65536 +
                 sint (quantize (srgbEncode (Fin 0))) * 256 +
                 sint (quantize (srgbEncode (Fin 0.001)))) = sint (quantize (srgbEncode (Fin 0.001)))"
    unfolding Let_def by blast
  with rng have "linearRGBtoHex (Fin 1, Fin 0, Fin 0.001) = Fin (real_of_int (255 * 65536 + 0 * 256 + 3)) \<and>
      channel 16 (255 * 65536 + 0 * 256 + 3) = 255 \<and> channel 8 (255 * 65536 + 0 * 256 + 3) = 0 \<and>
      channel 0 (255 * 65536 + 0 * 256 + 3) = 3"
    unfolding q by blast
  then have e4: "linearRGBtoHex (Fin 1, Fin 0, Fin 0.001) = Fin 0xFF0003"
    "channel 16 0xFF0003 = 255" "channel 8 0xFF0003 = 0" "channel 0 0xFF0003 = 3"
    by simp_all
  from h1 h2 h3 b1 b2 rng e1 e2 e3 e4 show ?thesis
    by (intro conjI)
qed

section \<open>Negative cone responses\<close>

lemma mix_NaN:
  assumes "k < 3" and "vnth lmsA k = NaN \<or> vnth lmsB k = NaN"
  shows "vnth (mix lmsA lmsB h) k = NaN"
proof -
  obtain a0 a1 a2 where a: "lmsA = (a0, a1, a2)" by (cases lmsA) auto
  obtain b0 b1 b2 where b: "lmsB = (b0, b1, b2)" by (cases lmsB) auto
  from assms(1) consider "k = 0" | "k = 1" | "k = 2" by linarith
  then show ?thesis
    using assms(2) by cases (auto simp add: a b)
qed

lemma cube3_NaN:
  assumes "k < 3" and "vnth lms k = NaN"
  shows "vnth (cube3 lms) k = NaN"
proof -
  obtain l0 l1 l2 where l: "lms = (l0, l1, l2)" by (cases lms) auto
  from assms(1) consider "k = 0" | "k = 1" | "k = 2" by linarith
  then show ?thesis
    using assms(2) by cases (auto simp add: l)
qed

lemma kLMStoCONE_NaN:
  assumes "k < 3" and "vnth v k = NaN"
  shows "mat3MultiplyVec3 kLMStoCONE v = (NaN, NaN, NaN)"
proof -
  obtain c0 c1 c2 where v: "v = (c0, c1, c2)" by (cases v) auto
  from assms have "c0 = NaN \<or> c1 = NaN \<or> c2 = NaN"
    by (auto simp add: v split: if_splits)
  then show ?thesis
    unfolding v kLMStoCONE_def by (rule mat_NaN)
qed

lemma cube_root_NaN:
  assumes "finiteVec col" and "k < 3" and "negative (vnth (mat3MultiplyVec3 kCONEtoLMS col) k)"
  shows "vnth (powVec3 (mat3MultiplyVec3 kCONEtoLMS col) (ndiv (Fin 1) (Fin 3))) k = NaN"
proof -
  from assms(1) obtain a0 a1 a2 where col: "col = (Fin a0, Fin a1, Fin a2)"
    by (rule finiteVec_cases)
  from assms(2) consider "k = 0" | "k = 1" | "k = 2" by linarith
  then show ?thesis
    using assms(3) unfolding col cone_finite
    by cases (simp_all add: third_not_integral)
qed

text \<open>
  C9. \<^verbatim>\<open>oklabMix\<close> does not clamp the cone responses. When a component of
  \<^verbatim>\<open>kCONEtoLMS\<close> applied to one of two finite input colours is negative, the cube root
  of that component is \<^verbatim>\<open>NaN\<close>, the interpolated component is \<^verbatim>\<open>NaN\<close> at every ratio, and
  all three components of the returned colour are \<^verbatim>\<open>NaN\<close>. Nothing is raised: the
  encoder packs the result as 0 and the formatter prints it.
\<close>

theorem oklabMix_NaN:
  assumes "finiteVec colA" and "finiteVec colB" and "k < 3"
    and "negative (vnth (mat3MultiplyVec3 kCONEtoLMS colA) k) \<or>
         negative (vnth (mat3MultiplyVec3 kCONEtoLMS colB) k)"
  shows "(negative (vnth (mat3MultiplyVec3 kCONEtoLMS colA) k) \<longrightarrow>
            vnth (powVec3 (mat3MultiplyVec3 kCONEtoLMS colA) (ndiv (Fin 1) (Fin 3))) k = NaN) \<and>
         (negative (vnth (mat3MultiplyVec3 kCONEtoLMS colB) k) \<longrightarrow>
            vnth (powVec3 (mat3MultiplyVec3 kCONEtoLMS colB) (ndiv (Fin 1) (Fin 3))) k = NaN) \<and>
         vnth (mix (powVec3 (mat3MultiplyVec3 kCONEtoLMS colA) (ndiv (Fin 1) (Fin 3)))
                   (powVec3 (mat3MultiplyVec3 kCONEtoLMS colB) (ndiv (Fin 1) (Fin 3))) h) k = NaN \<and>
         oklabMix colA colB h = (NaN, NaN, NaN) \<and>
         linearRGBtoHex (oklabMix colA colB h) = Fin 0 \<and>
         hexToString (linearRGBtoHex (oklabMix colA colB h)) = ''#000000''"
proof -
  let ?lmsA = "powVec3 (mat3MultiplyVec3 kCONEtoLMS colA) (ndiv (Fin 1) (Fin 3))"
  let ?lmsB = "powVec3 (mat3MultiplyVec3 kCONEtoLMS colB) (ndiv (Fin 1) (Fin 3))"
  have a: "vnth ?lmsA k = NaN" if "negative (vnth (mat3MultiplyVec3 kCONEtoLMS colA) k)"
    using assms(1,3) that by (rule cube_root_NaN)
  have b: "vnth ?lmsB k = NaN" if "negative (vnth (mat3MultiplyVec3 kCONEtoLMS colB) k)"
    using assms(2,3) that by (rule cube_root_NaN)
  from assms(4) a b have "vnth ?lmsA k = NaN \<or> vnth ?lmsB k = NaN" by blast
  with assms(3) have m: "vnth (mix ?lmsA ?lmsB h) k = NaN" by (rule mix_NaN)
  with assms(3) have "vnth (cube3 (mix ?lmsA ?lmsB h)) k = NaN" by (rule cube3_NaN)
  with assms(3) have "mat3MultiplyVec3 kLMStoCONE (cube3 (mix ?lmsA ?lmsB h)) = (NaN, NaN, NaN)"
    by (rule kLMStoCONE_NaN)
  then have r: "oklabMix colA colB h = (NaN, NaN, NaN)"
    by (simp add: oklabMix_def Let_def)
  have s: "hexToString (Fin 0) = ''#000000''" by code_simp
  have x: "linearRGBtoHex (oklabMix colA colB h) = Fin 0"
    by (simp only: r linearRGBtoHex_NaN)
  have y: "hexToString (linearRGBtoHex (oklabMix colA colB h)) = ''#000000''"
    by (simp only: x s)
  from a b m r x y show ?thesis
    by blast
qed

theorem oklabMix_NaN_witness:
  "negative (vnth (mat3MultiplyVec3 kCONEtoLMS (Fin (- 1), Fin 0, Fin 0)) 0) \<and>
   vnth (powVec3 (mat3MultiplyVec3 kCONEtoLMS (Fin (- 1), Fin 0, Fin 0)) (ndiv (Fin 1) (Fin 3))) 0 = NaN \<and>
   oklabMix (Fin (- 1), Fin 0, Fin 0) (Fin 1, Fin 1, Fin 1) (Fin (1 / 2)) = (NaN, NaN, NaN) \<and>
   hexToString (linearRGBtoHex (oklabMix (Fin (- 1), Fin 0, Fin 0) (Fin 1, Fin 1, Fin 1) (Fin (1 / 2)))) =
     ''#000000''"
proof -
  have n: "negative (vnth (mat3MultiplyVec3 kCONEtoLMS (Fin (- 1), Fin 0, Fin 0)) 0)"
    by (simp add: cone_finite)
  have f: "finiteVec (Fin (- 1), Fin 0, Fin 0)" "finiteVec (Fin 1, Fin 1, Fin 1)" "(0 :: nat) < 3"
    by simp_all
  from n oklabMix_NaN [OF f, of "Fin (1 / 2)"] show ?thesis
    by blast
qed

section \<open>Formatting a packed value\<close>

lemma hexDigitChar_mem: "d < 16 \<Longrightarrow> hexDigitChar d \<in> set ''0123456789abcdef''"
  unfolding hexDigitChar_def by (rule nth_mem) simp

lemma two_digits:
  assumes "0 \<le> v" "v < 256"
  shows "(if v < 16 then ''0'' else []) @ toString16 v =
         [hexDigitChar (nat v div 16), hexDigitChar (nat v mod 16)]"
proof (cases "v < 16")
  case True
  with assms have "nat v < 16" "nat v div 16 = 0" by auto
  with True assms show ?thesis
    by (simp add: toString16_def hexDigitChar_def)
next
  case False
  with assms have "\<not> nat v < 16" "nat v div 16 < 16" by auto
  with False assms show ?thesis
    by (simp add: toString16_def)
qed

lemma hexToString_word:
  "hexToString hex =
     (let n = uint (ToInt32 hex);
          r = (n div 2 ^ 16) mod 256; g = (n div 2 ^ 8) mod 256; b = n mod 256
      in [CHR ''#'',
          hexDigitChar (nat r div 16), hexDigitChar (nat r mod 16),
          hexDigitChar (nat g div 16), hexDigitChar (nat g mod 16),
          hexDigitChar (nat b div 16), hexDigitChar (nat b mod 16)])"
proof -
  define n where "n = uint (ToInt32 hex)"
  have w: "ToInt32 hex = word_of_int n" by (simp add: n_def)
  have r: "sint (signed_drop_bit 16 (ToInt32 hex) AND 0xFF) = (n div 2 ^ 16) mod 256"
    unfolding w by (rule channel_sint) simp
  have g: "sint (signed_drop_bit 8 (ToInt32 hex) AND 0xFF) = (n div 2 ^ 8) mod 256"
    unfolding w by (rule channel_sint) simp
  have b: "sint (ToInt32 hex AND 0xFF) = n mod 256"
    unfolding w by (rule channel0_sint)
  have td: "(if v mod 256 < 16 then ''0'' else []) @ toString16 (v mod 256) =
         [hexDigitChar (nat (v mod 256) div 16), hexDigitChar (nat (v mod 256) mod 16)]" for v :: int
    by (rule two_digits) simp_all
  show ?thesis
    unfolding hexToString_def r g b Let_def n_def [symmetric]
    by (simp only: td append_Cons append_Nil)
qed

lemma uint_ToInt32_of_int: "uint (ToInt32 (Fin (of_int n))) = n mod 2 ^ 32"
  by (simp add: trunc_of_int uint_word_of_int take_bit_eq_mod)

lemma chan_take:
  fixes m :: int
  assumes "k + 8 \<le> N"
  shows "(m mod 2 ^ N div 2 ^ k) mod 256 = (m div 2 ^ k) mod 256"
proof -
  have "take_bit 8 (drop_bit k (take_bit N m)) = take_bit 8 (drop_bit k m)"
    using assms by (auto simp add: bit_eq_iff bit_simps)
  then show ?thesis
    by (simp add: take_bit_eq_mod drop_bit_eq_div)
qed

lemma hexToString_int:
  "hexToString (Fin (of_int n)) =
     [CHR ''#'',
      hexDigitChar (nat ((n div 2 ^ 16) mod 256) div 16), hexDigitChar (nat ((n div 2 ^ 16) mod 256) mod 16),
      hexDigitChar (nat ((n div 2 ^ 8) mod 256) div 16), hexDigitChar (nat ((n div 2 ^ 8) mod 256) mod 16),
      hexDigitChar (nat (n mod 256) div 16), hexDigitChar (nat (n mod 256) mod 16)]"
proof -
  have a: "(n mod 2 ^ 32 div 2 ^ 16) mod 256 = (n div 2 ^ 16) mod 256"
    by (rule chan_take) simp
  have b: "(n mod 2 ^ 32 div 2 ^ 8) mod 256 = (n div 2 ^ 8) mod 256"
    by (rule chan_take) simp
  have c: "(n mod 2 ^ 32) mod 256 = n mod 256"
    using chan_take [of 0 32 n] by simp
  show ?thesis
    unfolding hexToString_word uint_ToInt32_of_int Let_def a b c ..
qed

lemma channel_low24:
  fixes m n :: int
  assumes "m mod 2 ^ 24 = n mod 2 ^ 24" and "k + 8 \<le> 24"
  shows "(m div 2 ^ k) mod 256 = (n div 2 ^ k) mod 256"
proof -
  have "(m div 2 ^ k) mod 256 = (m mod 2 ^ 24 div 2 ^ k) mod 256"
    by (rule chan_take [symmetric]) (rule assms)
  also have "\<dots> = (n mod 2 ^ 24 div 2 ^ k) mod 256"
    by (simp only: assms)
  also have "\<dots> = (n div 2 ^ k) mod 256"
    by (rule chan_take) (rule assms)
  finally show ?thesis .
qed

lemma hexToString_low24:
  fixes m n :: int
  assumes "m mod 2 ^ 24 = n mod 2 ^ 24"
  shows "hexToString (Fin (of_int m)) = hexToString (Fin (of_int n))"
proof -
  have a: "(m div 2 ^ 16) mod 256 = (n div 2 ^ 16) mod 256"
    using assms by (rule channel_low24) simp
  have b: "(m div 2 ^ 8) mod 256 = (n div 2 ^ 8) mod 256"
    using assms by (rule channel_low24) simp
  have "(m div 2 ^ 0) mod 256 = (n div 2 ^ 0) mod 256"
    using assms by (rule channel_low24) simp
  then have c: "m mod 256 = n mod 256"
    by simp
  show ?thesis
    unfolding hexToString_int a b c ..
qed

text \<open>
  C10. \<^verbatim>\<open>hexToString\<close> masks each channel it extracts with \<^verbatim>\<open>0xFF\<close>: whatever number
  it is given, the result is \<^verbatim>\<open>#\<close> followed by exactly six lower-case hexadecimal
  digits, and on integers the result depends on the low 24 bits only.
\<close>

theorem hexToString_format:
  "length (hexToString hex) = 7 \<and>
   hd (hexToString hex) = CHR ''#'' \<and>
   set (tl (hexToString hex)) \<subseteq> set ''0123456789abcdef'' \<and>
   (\<forall>m n :: int. m mod 2 ^ 24 = n mod 2 ^ 24 \<longrightarrow>
      hexToString (Fin (of_int m)) = hexToString (Fin (of_int n)))"
proof -
  have d: "hexDigitChar (nat (v mod 256) div 16) \<in> set ''0123456789abcdef''"
          "hexDigitChar (nat (v mod 256) mod 16) \<in> set ''0123456789abcdef''" for v :: int
  proof -
    have "0 \<le> v mod 256" "v mod 256 < 256" by simp_all
    then have "nat (v mod 256) div 16 < 16" by linarith
    then show "hexDigitChar (nat (v mod 256) div 16) \<in> set ''0123456789abcdef''"
      by (rule hexDigitChar_mem)
    show "hexDigitChar (nat (v mod 256) mod 16) \<in> set ''0123456789abcdef''"
      by (rule hexDigitChar_mem) simp
  qed
  have "length (hexToString hex) = 7" "hd (hexToString hex) = CHR ''#''"
    by (simp_all add: hexToString_word Let_def)
  moreover have "set (tl (hexToString hex)) \<subseteq> set ''0123456789abcdef''"
    unfolding hexToString_word Let_def list.sel set_simps(2) [of _ "_ # _"]
    using d by (simp only: set_simps insert_subset empty_subsetI simp_thms)
  ultimately show ?thesis
    using hexToString_low24 by blast
qed

theorem hexToString_format_witness:
  "hexToString (Fin 0x1FF00FF) = ''#ff00ff'' \<and>
   hexToString (Fin (- 1)) = ''#ffffff'' \<and>
   length (hexToString (Fin 0x1FF00FF)) = 7 \<and>
   set (tl (hexToString (Fin 0x1FF00FF))) \<subseteq> set ''0123456789abcdef'' \<and>
   hexToString (Fin (of_int 0x1FF00FF)) = hexToString (Fin (of_int 0xFF00FF))"
proof -
  have "(0x1FF00FF :: int) mod 2 ^ 24 = 0xFF00FF mod 2 ^ 24" by simp
  with hexToString_format [of "Fin 0x1FF00FF"]
  have "hexToString (Fin (of_int 0x1FF00FF)) = hexToString (Fin (of_int 0xFF00FF))"
       "length (hexToString (Fin 0x1FF00FF)) = 7"
       "set (tl (hexToString (Fin 0x1FF00FF))) \<subseteq> set ''0123456789abcdef''"
    by blast+
  moreover have "hexToString (Fin 0x1FF00FF) = ''#ff00ff''" by code_simp
  moreover have "hexToString (Fin (- 1)) = ''#ffffff''" by code_simp
  ultimately show ?thesis by blast
qed

section \<open>Intervals for the encoder\<close>

lemma encode_between:
  fixes v p :: real and k :: int
  assumes "0.0031308 < v" and "0 \<le> k"
    and "((real_of_int k - 1 / 2) / 255 + 0.055) / 1.055 \<le> v powr (5 / 12)"
    and "v powr (5 / 12) < ((real_of_int k + 1 / 2) / 255 + 0.055) / 1.055"
  shows "scale8 (srgb_encode v) = k"
proof -
  define p where "p = v powr (5 / 12)"
  have e: "srgb_encode v = 1.055 * p - 0.055"
    using assms(1) by (simp add: srgb_encode_def p_def)
  have lo: "real_of_int k \<le> (1.055 * p - 0.055) * 255 + 0.5"
    using assms(3) by (simp add: p_def field_simps)
  have "(1.055 * p - 0.055) * 255 + 0.5 < real_of_int k + 1"
    using assms(4) by (simp add: p_def field_simps)
  with lo have "\<lfloor>(1.055 * p - 0.055) * 255 + 0.5\<rfloor> = k"
    by (intro floor_unique)
  moreover from lo assms(2) have "0 \<le> (1.055 * p - 0.055) * 255 + 0.5" by linarith
  ultimately show ?thesis
    unfolding scale8_def e trunc_def by (simp only: if_True)
qed

lemma encode_interval:
  fixes v vl vu :: real and k :: int
  assumes "0.0031308 < vl" and "vl \<le> v" and "v \<le> vu" and "0 \<le> k"
    and "(((real_of_int k - 1 / 2) / 255 + 0.055) / 1.055) ^ 12 \<le> vl ^ 5"
    and "vu ^ 5 < (((real_of_int k + 1 / 2) / 255 + 0.055) / 1.055) ^ 12"
  shows "scale8 (srgb_encode v) = k"
proof -
  define pl where "pl = ((real_of_int k - 1 / 2) / 255 + 0.055) / 1.055"
  define pu where "pu = ((real_of_int k + 1 / 2) / 255 + 0.055) / 1.055"
  from assms(4) have "0 \<le> real_of_int k" by simp
  then have "0 < (real_of_int k - 1 / 2) / 255 + 0.055" "0 < (real_of_int k + 1 / 2) / 255 + 0.055"
    by (simp_all add: field_simps)
  then have pl: "0 < pl" and pu: "0 < pu"
    unfolding pl_def pu_def by (simp_all only: zero_less_divide_iff) simp_all
  from assms(1,2) have v: "0 < v" "0.0031308 < v" and vl: "0 \<le> vl" by simp_all
  have "pl ^ 12 \<le> vl ^ 5" using assms(5) by (simp only: pl_def)
  also have "\<dots> \<le> v ^ 5" using vl assms(2) by (rule power_mono [rotated])
  finally have "pl \<le> v powr (real 5 / real 12)"
    using v(1) pl by (intro powr_ratio_ge) simp_all
  then have lo: "pl \<le> v powr (5 / 12)" by simp
  have "v ^ 5 \<le> vu ^ 5" using v(1) assms(3) by (intro power_mono) simp_all
  also have "\<dots> < pu ^ 12" using assms(6) by (simp only: pu_def)
  finally have "v powr (real 5 / real 12) < pu"
    using v(1) pu by (intro powr_ratio_lt) simp_all
  then have hi: "v powr (5 / 12) < pu" by simp
  from v(2) assms(4) lo hi show ?thesis
    unfolding pl_def pu_def by (rule encode_between)
qed

lemma encode_small:
  fixes v :: real
  assumes "- (1 / 10 ^ 4) \<le> v" and "v \<le> 1 / 10 ^ 4"
  shows "scale8 (srgb_encode v) = 0"
proof -
  from assms(2) have e: "srgb_encode v = v * 12.92" by (simp add: srgb_encode_def)
  have "0 \<le> v * 12.92 * 255 + 0.5" "v * 12.92 * 255 + 0.5 < 1"
    using assms by simp_all
  then have "\<lfloor>v * 12.92 * 255 + 0.5\<rfloor> = 0" "0 \<le> v * 12.92 * 255 + 0.5"
    by (simp_all add: floor_eq_iff)
  then show ?thesis
    unfolding scale8_def e trunc_def by (simp only: if_True)
qed

lemma cbrt_interval:
  fixes x l u :: real
  assumes "0 < l" and "l ^ 3 \<le> x" and "x \<le> u ^ 3" and "0 < u"
  shows "l \<le> x powr (1 / 3) \<and> x powr (1 / 3) \<le> u"
proof -
  from assms(1) have "0 < l ^ 3" by simp
  with assms(2) have x: "0 < x" by linarith
  have "l \<le> x powr (real 1 / real 3)"
    using x assms(1,2) by (intro powr_ratio_ge) simp_all
  moreover have "x powr (real 1 / real 3) \<le> u"
    using x assms(3,4) by (intro powr_ratio_le) simp_all
  ultimately show ?thesis by simp
qed

lemma half_mix_cube:
  fixes a b :: real
  assumes "la \<le> a \<and> a \<le> ua" and "lb \<le> b \<and> b \<le> ub" and "0 \<le> la" and "0 \<le> lb"
  shows "((la + lb) / 2) ^ 3 \<le> (a * (1 - 1 / 2) + b * (1 / 2)) ^ 3"
    and "(a * (1 - 1 / 2) + b * (1 / 2)) ^ 3 \<le> ((ua + ub) / 2) ^ 3"
  using assms by (intro power_mono; simp)+

lemma back_finite:
  "mat3MultiplyVec3 kLMStoCONE (Fin c0, Fin c1, Fin c2) =
     (Fin (4.0767245293 * c0 - 1.2681437731 * c1 - 0.0041119885 * c2),
      Fin (- 3.3072168827 * c0 + 2.6093323231 * c1 - 0.7034763098 * c2),
      Fin (0.2307590544 * c0 - 0.3411344290 * c1 + 1.7068625689 * c2))"
  by (simp add: kLMStoCONE_def)

lemma decode_byte_ends:
  "srgbDecode (ndiv (Fin (real_of_int 255)) (Fin 255)) = Fin 1"
  "srgbDecode (ndiv (Fin (real_of_int 0)) (Fin 255)) = Fin 0"
  by (simp_all add: srgbDecode_def)

section \<open>The endpoints of a mix\<close>

lemma powr_gap:
  fixes x y :: real
  assumes "0 < x" and "x \<le> y" and "x \<le> 1"
  shows "x powr 2.4 + 2 * x\<^sup>2 * (y - x) \<le> y powr 2.4"
proof -
  define t where "t = y / x"
  from assms have t: "1 \<le> t" by (simp add: t_def)
  have y: "y = x * t" using assms(1) by (simp add: t_def)
  have "1 + 2 * (t - 1) \<le> t\<^sup>2"
    using zero_le_power2 [of "t - 1"] by (simp add: power2_eq_square algebra_simps)
  also have "t\<^sup>2 = t powr 2" using t by (simp add: powr_numeral)
  also have "\<dots> \<le> t powr 2.4" using t by (intro powr_mono) simp_all
  finally have t24: "1 + 2 * (t - 1) \<le> t powr 2.4" .
  have "x powr 3 \<le> x powr 2.4"
    using assms(1,3) by (intro powr_mono') simp_all
  then have x3: "x ^ 3 \<le> x powr 2.4" using assms(1) by (simp add: powr_numeral)
  have "x powr 2.4 + 2 * x\<^sup>2 * (y - x) = x powr 2.4 + 2 * x ^ 3 * (t - 1)"
    using assms(1) by (simp add: y power2_eq_square power3_eq_cube algebra_simps)
  also have "\<dots> \<le> x powr 2.4 + 2 * x powr 2.4 * (t - 1)"
    using x3 t by (simp add: mult_right_mono)
  also have "\<dots> = x powr 2.4 * (1 + 2 * (t - 1))" by (simp add: algebra_simps)
  also have "\<dots> \<le> x powr 2.4 * t powr 2.4"
    using t24 by (intro mult_left_mono) simp_all
  also have "\<dots> = y powr 2.4"
    using assms(1) t unfolding y by (simp add: powr_mult)
  finally show ?thesis .
qed

lemma half_step: "((real_of_int k - 1 / 2) / 255 + 0.055) / 1.055 = (real_of_int k / 255 + 0.055) / 1.055 - 1 / 538.05"
  "((real_of_int k + 1 / 2) / 255 + 0.055) / 1.055 = (real_of_int k / 255 + 0.055) / 1.055 + 1 / 538.05"
  by (simp_all add: field_simps)

lemma channel_perturbed_high:
  fixes d :: real
  assumes "11 \<le> k" and "k \<le> 255" and "\<bar>d\<bar> \<le> 1 / 10 ^ 7"
  shows "scale8 (srgb_encode (((real_of_int k / 255 + 0.055) / 1.055) powr 2.4 + d)) = k"
proof -
  define b where "b = (real_of_int k / 255 + 0.055) / 1.055"
  define s :: real where "s = 1 / 538.05"
  define v where "v = b powr 2.4 + d"
  from assms(1,2) have k: "11 \<le> real_of_int k" "real_of_int k \<le> 255" by simp_all
  then have b: "0.0929 \<le> b" "b \<le> 1" by (simp_all add: b_def)
  have s: "0 < s" "s \<le> 0.0018586" "0.0018 \<le> s" by (simp_all add: s_def)
  from b s have x: "0.091 \<le> b - s" "0 < b - s" "b - s \<le> b" "b - s \<le> 1" by simp_all
  from b s have y: "0 < b" "b \<le> b + s" "0 < b + s" by simp_all
  have "(0.091 :: real)\<^sup>2 \<le> (b - s)\<^sup>2" using x(1) by (intro power_mono) simp_all
  then have "0.091\<^sup>2 * 0.0018 \<le> (b - s)\<^sup>2 * s"
    using s(3) by (intro mult_mono) simp_all
  then have g1: "1 / 10 ^ 7 \<le> 2 * (b - s)\<^sup>2 * (b - (b - s))"
    by (simp add: power2_eq_square)
  have "(0.0929 :: real)\<^sup>2 \<le> b\<^sup>2" using b(1) by (intro power_mono) simp_all
  then have "0.0929\<^sup>2 * 0.0018 \<le> b\<^sup>2 * s"
    using s(3) by (intro mult_mono) simp_all
  then have g2: "1 / 10 ^ 7 < 2 * b\<^sup>2 * (b + s - b)"
    by (simp add: power2_eq_square)
  from powr_gap [OF x(2) x(3) x(4)] g1 assms(3)
  have lo: "(b - s) powr 2.4 \<le> v" unfolding v_def by simp
  from powr_gap [OF y(1) y(2) b(2)] g2 assms(3)
  have hi: "v < (b + s) powr 2.4" unfolding v_def by simp
  have "(0.0031308 :: real) < 0.091 powr (real 12 / real 5)"
    by (intro powr_ratio_gt) (simp_all add: power_divide)
  also have "\<dots> \<le> (b - s) powr (real 12 / real 5)"
    using x(1) by (intro powr_mono2) simp_all
  also have "\<dots> = (b - s) powr 2.4" by simp
  finally have th: "0.0031308 < v" using lo by simp
  then have v: "0 \<le> v" by simp
  have inv: "(z powr 2.4) powr (5 / 12) = z" if "0 < z" for z :: real
    using that by (simp add: powr_powr)
  have "((b - s) powr 2.4) powr (5 / 12) \<le> v powr (5 / 12)"
    using lo by (intro powr_mono2) simp_all
  then have pl: "b - s \<le> v powr (5 / 12)" by (simp only: inv [OF x(2)])
  have "v powr (5 / 12) < ((b + s) powr 2.4) powr (5 / 12)"
    using hi v by (intro powr_less_mono2) simp_all
  then have pu: "v powr (5 / 12) < b + s" by (simp only: inv [OF y(3)])
  have pl': "((real_of_int k - 1 / 2) / 255 + 0.055) / 1.055 \<le> v powr (5 / 12)"
    unfolding half_step b_def [symmetric] s_def [symmetric] by (rule pl)
  have pu': "v powr (5 / 12) < ((real_of_int k + 1 / 2) / 255 + 0.055) / 1.055"
    unfolding half_step b_def [symmetric] s_def [symmetric] by (rule pu)
  from assms(1) have "0 \<le> k" by simp
  with th have "scale8 (srgb_encode v) = k"
    using pl' pu' by (rule encode_between)
  then show ?thesis unfolding v_def b_def .
qed

lemma channel_perturbed_low:
  fixes d :: real
  assumes "0 \<le> k" and "k \<le> 10" and "\<bar>d\<bar> \<le> 1 / 10 ^ 7"
  shows "scale8 (srgb_encode (real_of_int k / 255 / 12.92 + d)) = k"
proof -
  define v where "v = real_of_int k / 255 / 12.92 + d"
  from assms(1,2) have k: "0 \<le> real_of_int k" "real_of_int k \<le> 10" by simp_all
  with assms(3) have "v \<le> 0.0031308" by (simp add: v_def field_simps)
  then have e: "srgb_encode v = v * 12.92" by (simp add: srgb_encode_def)
  have w: "v * 12.92 * 255 + 0.5 = real_of_int k + (0.5 + d * 3294.6)"
    by (simp add: v_def field_simps)
  from assms(3) have "0 \<le> 0.5 + d * 3294.6" "0.5 + d * 3294.6 < 1" by (simp_all add: abs_le_iff)
  with k(1) have "real_of_int k \<le> v * 12.92 * 255 + 0.5" "v * 12.92 * 255 + 0.5 < real_of_int k + 1"
    "0 \<le> v * 12.92 * 255 + 0.5"
    unfolding w by linarith+
  then have "\<lfloor>v * 12.92 * 255 + 0.5\<rfloor> = k" "0 \<le> v * 12.92 * 255 + 0.5"
    by (simp_all add: floor_unique)
  then have "scale8 (srgb_encode v) = k"
    unfolding scale8_def e trunc_def by (simp only: if_True)
  then show ?thesis unfolding v_def .
qed

lemma channel_perturbed:
  assumes "0 \<le> k" and "k \<le> 255"
  shows "\<exists>a. srgbDecode (ndiv (Fin (real_of_int k)) (Fin 255)) = Fin a \<and> 0 \<le> a \<and> a \<le> 1 \<and>
           (\<forall>d. \<bar>d\<bar> \<le> 1 / 10 ^ 7 \<longrightarrow> scale8 (srgb_encode (a + d)) = k)"
proof (cases "k \<le> 10")
  case True
  with assms(1) have k: "0 \<le> real_of_int k" "real_of_int k \<le> 10" by simp_all
  then have "srgbDecode (ndiv (Fin (real_of_int k)) (Fin 255)) = Fin (real_of_int k / 255 / 12.92)"
    by (simp add: srgbDecode_def)
  moreover from k have "0 \<le> real_of_int k / 255 / 12.92" "real_of_int k / 255 / 12.92 \<le> 1"
    by simp_all
  ultimately show ?thesis
    using channel_perturbed_low [OF assms(1) True] by blast
next
  case False
  then have k11: "11 \<le> k" by simp
  with assms(2) have k: "11 \<le> real_of_int k" "real_of_int k \<le> 255" by simp_all
  define b where "b = (real_of_int k / 255 + 0.055) / 1.055"
  from k have b: "0 < b" "b \<le> 1" by (simp_all add: b_def)
  from k have "srgbDecode (ndiv (Fin (real_of_int k)) (Fin 255)) = Fin (b powr 2.4)"
    by (simp add: srgbDecode_def b_def)
  moreover have "0 \<le> b powr 2.4" by simp
  moreover have "b powr 2.4 \<le> 1 powr 2.4" using b by (intro powr_mono2) simp_all
  then have "b powr 2.4 \<le> 1" by simp
  ultimately show ?thesis
    using channel_perturbed_high [OF k11 assms(2)] unfolding b_def by blast
qed

lemma channels_sum:
  assumes "0 \<le> n" and "n < 2 ^ 24"
  shows "channel 16 n * 65536 + channel 8 n * 256 + channel 0 n = n"
proof -
  have "n div 2 ^ 16 < 256" using assms by simp
  moreover have "0 \<le> n div 2 ^ 16" using assms by simp
  ultimately have a: "channel 16 n = n div 65536" by (simp add: channel_def)
  have b: "channel 8 n = (n div 256) mod 256" "channel 0 n = n mod 256"
    by (simp_all add: channel_def)
  define q where "q = n div 256"
  have d: "n div 65536 = q div 256" by (simp add: q_def div_mult2_eq [symmetric])
  have 1: "q div 256 * 256 + q mod 256 = q" by (rule div_mult_mod_eq)
  have 2: "q * 256 + n mod 256 = n" unfolding q_def by (rule div_mult_mod_eq)
  have alg: "A * 65536 + B * 256 + C = (A * 256 + B) * 256 + C" for A B C :: int
    by simp
  have "q div 256 * 65536 + q mod 256 * 256 + n mod 256 =
        (q div 256 * 256 + q mod 256) * 256 + n mod 256"
    by (rule alg)
  also have "\<dots> = n" by (simp only: 1 2)
  finally show ?thesis
    unfolding a b d q_def [symmetric] .
qed

lemma matrix_error:
  fixes a0 a1 a2 :: real
  assumes "0 \<le> a0" "a0 \<le> 1" "0 \<le> a1" "a1 \<le> 1" "0 \<le> a2" "a2 \<le> 1"
  shows "\<bar>(196448752775 * a0 + 5531874305456 * a1 + 3141991700117 * a2) / 10 ^ 20\<bar> \<le> 1 / 10 ^ 7"
    and "\<bar>- ((1431173853754 * a0 + 1816722366406 * a1 + 440342504343 * a2) / 10 ^ 20)\<bar> \<le> 1 / 10 ^ 7"
    and "\<bar>(211067855997 * a0 + 336279046030 * a1 - 4634165571868 * a2) / 10 ^ 20\<bar> \<le> 1 / 10 ^ 7"
  using assms by (simp_all add: abs_le_iff)

lemma packed_after_matrices:
  assumes "0 \<le> n" and "n < 2 ^ 24"
  shows "linearRGBtoHex (mat3MultiplyVec3 kLMStoCONE
           (mat3MultiplyVec3 kCONEtoLMS (hexToLinearRGB (Fin (real_of_int n))))) = Fin (real_of_int n)"
    and "inGamut (hexToLinearRGB (Fin (real_of_int n)))"
proof -
  from channel_perturbed [OF channel_range, of 16 n] obtain a0 where
    a0: "srgbDecode (ndiv (Fin (real_of_int (channel 16 n))) (Fin 255)) = Fin a0" "0 \<le> a0" "a0 \<le> 1"
      "\<And>d. \<bar>d\<bar> \<le> 1 / 10 ^ 7 \<Longrightarrow> scale8 (srgb_encode (a0 + d)) = channel 16 n"
    by blast
  from channel_perturbed [OF channel_range, of 8 n] obtain a1 where
    a1: "srgbDecode (ndiv (Fin (real_of_int (channel 8 n))) (Fin 255)) = Fin a1" "0 \<le> a1" "a1 \<le> 1"
      "\<And>d. \<bar>d\<bar> \<le> 1 / 10 ^ 7 \<Longrightarrow> scale8 (srgb_encode (a1 + d)) = channel 8 n"
    by blast
  from channel_perturbed [OF channel_range, of 0 n] obtain a2 where
    a2: "srgbDecode (ndiv (Fin (real_of_int (channel 0 n))) (Fin 255)) = Fin a2" "0 \<le> a2" "a2 \<le> 1"
      "\<And>d. \<bar>d\<bar> \<le> 1 / 10 ^ 7 \<Longrightarrow> scale8 (srgb_encode (a2 + d)) = channel 0 n"
    by blast
  have dec: "hexToLinearRGB (Fin (real_of_int n)) = (Fin a0, Fin a1, Fin a2)"
    unfolding hexToLinearRGB_int a0(1) a1(1) a2(1) ..
  show "inGamut (hexToLinearRGB (Fin (real_of_int n)))"
    unfolding dec using a0(2,3) a1(2,3) a2(2,3) by simp
  note err = matrix_error [OF a0(2,3) a1(2,3) a2(2,3)]
  have r: "scale8 (srgb_encode
      (a0 + (196448752775 * a0 + 5531874305456 * a1 + 3141991700117 * a2) / 10 ^ 20)) = channel 16 n"
    by (rule a0(4)) (rule err(1))
  have "scale8 (srgb_encode
      (a1 + - ((1431173853754 * a0 + 1816722366406 * a1 + 440342504343 * a2) / 10 ^ 20))) = channel 8 n"
    by (rule a1(4)) (rule err(2))
  then have g: "scale8 (srgb_encode
      (a1 - (1431173853754 * a0 + 1816722366406 * a1 + 440342504343 * a2) / 10 ^ 20)) = channel 8 n"
    by (simp only: diff_conv_add_uminus)
  have b: "scale8 (srgb_encode
      (a2 + (211067855997 * a0 + 336279046030 * a1 - 4634165571868 * a2) / 10 ^ 20)) = channel 0 n"
    by (rule a2(4)) (rule err(3))
  define v0 where "v0 = a0 + (196448752775 * a0 + 5531874305456 * a1 + 3141991700117 * a2) / 10 ^ 20"
  define v1 where "v1 = a1 - (1431173853754 * a0 + 1816722366406 * a1 + 440342504343 * a2) / 10 ^ 20"
  define v2 where "v2 = a2 + (211067855997 * a0 + 336279046030 * a1 - 4634165571868 * a2) / 10 ^ 20"
  note q = r [folded v0_def] g [folded v1_def] b [folded v2_def]
  have "linearRGBtoHex (Fin v0, Fin v1, Fin v2) =
        Fin (real_of_int (scale8 (srgb_encode v0) * 65536 + scale8 (srgb_encode v1) * 256 +
                          scale8 (srgb_encode v2)))"
    by (rule linearRGBtoHex_in_range) (simp_all only: q channel_range)
  then have "linearRGBtoHex (mat3MultiplyVec3 kLMStoCONE
           (mat3MultiplyVec3 kCONEtoLMS (hexToLinearRGB (Fin (real_of_int n))))) =
        Fin (real_of_int (channel 16 n * 65536 + channel 8 n * 256 + channel 0 n))"
    unfolding dec roundtrip_matrix v0_def [symmetric] v1_def [symmetric] v2_def [symmetric]
    by (simp only: q)
  then show "linearRGBtoHex (mat3MultiplyVec3 kLMStoCONE
           (mat3MultiplyVec3 kCONEtoLMS (hexToLinearRGB (Fin (real_of_int n))))) = Fin (real_of_int n)"
    by (simp only: channels_sum [OF assms])
qed

lemma mix_ends_packed:
  assumes "0 \<le> p" "p < 2 ^ 24" "0 \<le> q" "q < 2 ^ 24"
  shows "linearRGBtoHex (oklabMix (hexToLinearRGB (Fin (real_of_int p)))
           (hexToLinearRGB (Fin (real_of_int q))) (Fin 0)) = Fin (real_of_int p)"
    and "linearRGBtoHex (oklabMix (hexToLinearRGB (Fin (real_of_int p)))
           (hexToLinearRGB (Fin (real_of_int q))) (Fin 1)) = Fin (real_of_int q)"
proof -
  from packed_after_matrices(2) [OF assms(1,2)] obtain a0 a1 a2 where
    A: "hexToLinearRGB (Fin (real_of_int p)) = (Fin a0, Fin a1, Fin a2)"
    and a: "0 \<le> a0" "0 \<le> a1" "0 \<le> a2"
    by (rule inGamut_cases)
  from packed_after_matrices(2) [OF assms(3,4)] obtain b0 b1 b2 where
    B: "hexToLinearRGB (Fin (real_of_int q)) = (Fin b0, Fin b1, Fin b2)"
    and b: "0 \<le> b0" "0 \<le> b1" "0 \<le> b2"
    by (rule inGamut_cases)
  note e = oklabMix_ends [OF a b, folded A B]
  show "linearRGBtoHex (oklabMix (hexToLinearRGB (Fin (real_of_int p)))
           (hexToLinearRGB (Fin (real_of_int q))) (Fin 0)) = Fin (real_of_int p)"
    unfolding e(1) by (rule packed_after_matrices(1) [OF assms(1,2)])
  show "linearRGBtoHex (oklabMix (hexToLinearRGB (Fin (real_of_int p)))
           (hexToLinearRGB (Fin (real_of_int q))) (Fin 1)) = Fin (real_of_int q)"
    unfolding e(2) by (rule packed_after_matrices(1) [OF assms(3,4)])
qed

section \<open>The sequence and its endpoints\<close>

text \<open>
  C1. For valid endpoint strings and every midpoint count \<open>m\<close>, \<^verbatim>\<open>call\<close> returns and
  yields exactly \<open>m + 2\<close> entries; entry \<open>i\<close> is \<^verbatim>\<open>oklabMix\<close> of the two decoded
  endpoints at ratio \<open>i / (m + 1)\<close>. The first entry is mixed at ratio 0 and its packed
  value is the start colour; the last is mixed at ratio 1 and its packed value is the
  end colour.
\<close>

theorem call_sequence:
  assumes "stringToHex start = Inr s" and "stringToHex end' = Inr e"
  shows "\<exists>es. call start end' (Some (Fin (real m))) = Some (Inr es) \<and>
           length es = m + 2 \<and>
           (\<forall>i < m + 2.
              color (es ! i) =
                oklabMix (hexToLinearRGB s) (hexToLinearRGB e) (Fin (real i / real (m + 1))) \<and>
              hexColor (es ! i) = linearRGBtoHex (color (es ! i)) \<and>
              hexString (es ! i) = hexToString (hexColor (es ! i))) \<and>
           color (es ! 0) = oklabMix (hexToLinearRGB s) (hexToLinearRGB e) (Fin 0) \<and>
           color (es ! (m + 1)) = oklabMix (hexToLinearRGB s) (hexToLinearRGB e) (Fin 1) \<and>
           hexColor (es ! 0) = s \<and> hexColor (es ! (m + 1)) = e"
proof -
  from assms(1) obtain p where p: "s = Fin (real_of_int p)" "0 \<le> p" "p < 2 ^ 24"
    by (rule stringToHex_range)
  from assms(2) obtain q where q: "e = Fin (real_of_int q)" "0 \<le> q" "q < 2 ^ 24"
    by (rule stringToHex_range)
  note ends = mix_ends_packed [OF p(2,3) q(2,3), folded p(1) q(1)]
  define es where
    "es = map (\<lambda>j. body (hexToLinearRGB s) (hexToLinearRGB e) (Fin (real (Suc m))) (Fin (real j)))
              [0 ..< m + 2]"
  have c: "call start end' (Some (Fin (real m))) = Some (Inr es)"
    unfolding es_def by (rule call_entries [OF assms])
  have len: "length es = m + 2" by (simp add: es_def)
  have nth: "es ! i = body (hexToLinearRGB s) (hexToLinearRGB e) (Fin (real (Suc m))) (Fin (real i))"
    if "i < m + 2" for i
    using that unfolding es_def by (simp only: nth_map length_upt nth_upt diff_zero add_0)
  have col: "color (es ! i) =
      oklabMix (hexToLinearRGB s) (hexToLinearRGB e) (Fin (real i / real (m + 1)))"
    if "i < m + 2" for i
    using body_color [of "hexToLinearRGB s" "hexToLinearRGB e" m i] by (simp add: nth [OF that])
  have flds: "hexColor (es ! i) = linearRGBtoHex (color (es ! i)) \<and>
      hexString (es ! i) = hexToString (hexColor (es ! i))" if "i < m + 2" for i
    by (simp only: nth [OF that] body_fields)
  have first: "color (es ! 0) = oklabMix (hexToLinearRGB s) (hexToLinearRGB e) (Fin 0)"
    using col [of 0] by simp
  have last: "color (es ! (m + 1)) = oklabMix (hexToLinearRGB s) (hexToLinearRGB e) (Fin 1)"
    using col [of "m + 1"] by simp
  from flds [of 0] have "hexColor (es ! 0) = linearRGBtoHex (color (es ! 0))"
    by simp
  then have h0: "hexColor (es ! 0) = s"
    by (simp only: first ends)
  from flds [of "m + 1"] have "hexColor (es ! (m + 1)) = linearRGBtoHex (color (es ! (m + 1)))"
    by simp
  then have h1: "hexColor (es ! (m + 1)) = e"
    by (simp only: last ends)
  from c len col flds first last h0 h1 show ?thesis by blast
qed

theorem call_sequence_witness:
  "\<exists>es. call ''#FF8000'' ''0080ff'' (Some (Fin (real 3))) = Some (Inr es) \<and>
        length es = 5 \<and>
        color (es ! 2) =
          oklabMix (hexToLinearRGB (Fin 0xFF8000)) (hexToLinearRGB (Fin 0x0080FF)) (Fin (1 / 2)) \<and>
        color (es ! 0) =
          oklabMix (hexToLinearRGB (Fin 0xFF8000)) (hexToLinearRGB (Fin 0x0080FF)) (Fin 0) \<and>
        color (es ! 4) =
          oklabMix (hexToLinearRGB (Fin 0xFF8000)) (hexToLinearRGB (Fin 0x0080FF)) (Fin 1) \<and>
        hexColor (es ! 0) = Fin 0xFF8000 \<and> hexColor (es ! 4) = Fin 0x0080FF"
proof -
  have s: "stringToHex ''#FF8000'' = Inr (Fin 0xFF8000)" by code_simp
  have e: "stringToHex ''0080ff'' = Inr (Fin 0x0080FF)" by code_simp
  from call_sequence [OF s e, of 3] obtain es where
    c: "call ''#FF8000'' ''0080ff'' (Some (Fin (real 3))) = Some (Inr es)" and
    len: "length es = 3 + 2" and
    col: "\<forall>i < 3 + 2. color (es ! i) =
            oklabMix (hexToLinearRGB (Fin 0xFF8000)) (hexToLinearRGB (Fin 0x0080FF))
              (Fin (real i / real (3 + 1)))" and
    first: "color (es ! 0) =
          oklabMix (hexToLinearRGB (Fin 0xFF8000)) (hexToLinearRGB (Fin 0x0080FF)) (Fin 0)" and
    last: "color (es ! (3 + 1)) =
          oklabMix (hexToLinearRGB (Fin 0xFF8000)) (hexToLinearRGB (Fin 0x0080FF)) (Fin 1)" and
    h: "hexColor (es ! 0) = Fin 0xFF8000" "hexColor (es ! (3 + 1)) = Fin 0x0080FF"
    by blast
  from col have "color (es ! 2) =
      oklabMix (hexToLinearRGB (Fin 0xFF8000)) (hexToLinearRGB (Fin 0x0080FF)) (Fin (real 2 / real (3 + 1)))"
    by simp
  then have mid: "color (es ! 2) =
      oklabMix (hexToLinearRGB (Fin 0xFF8000)) (hexToLinearRGB (Fin 0x0080FF)) (Fin (1 / 2))"
    by simp
  from c len mid first last h show ?thesis by auto
qed

section \<open>The default count\<close>

lemma decode_black: "hexToLinearRGB (Fin 0) = (Fin 0, Fin 0, Fin 0)"
proof -
  have c: "channel 16 0 = 0" "channel 8 0 = 0" "channel 0 0 = 0"
    by (simp_all add: channel_def)
  have "hexToLinearRGB (Fin (real_of_int 0)) = (Fin 0, Fin 0, Fin 0)"
    unfolding hexToLinearRGB_int c decode_byte_ends ..
  then show ?thesis by simp
qed

lemma decode_white: "hexToLinearRGB (Fin 0xFFFFFF) = (Fin 1, Fin 1, Fin 1)"
proof -
  have c: "channel 16 0xFFFFFF = 255" "channel 8 0xFFFFFF = 255" "channel 0 0xFFFFFF = 255"
    by (simp_all add: channel_def)
  have "hexToLinearRGB (Fin (real_of_int 0xFFFFFF)) = (Fin 1, Fin 1, Fin 1)"
    unfolding hexToLinearRGB_int c decode_byte_ends ..
  then show ?thesis by simp
qed

lemma cone_black:
  "mat3MultiplyVec3 kCONEtoLMS (Fin 0, Fin 0, Fin 0) = (Fin 0, Fin 0, Fin 0)"
  by (simp add: kCONEtoLMS_def)

lemma cone_white:
  "mat3MultiplyVec3 kCONEtoLMS (Fin 1, Fin 1, Fin 1) =
     (Fin 0.7123345137, Fin 1.4988415838, Fin 0.7891255059)"
  by (simp add: kCONEtoLMS_def)

lemma cube_roots_white:
  "0.89308883 \<le> (0.7123345137 :: real) powr (1 / 3) \<and> (0.7123345137 :: real) powr (1 / 3) \<le> 0.89308884"
  "1.14441948 \<le> (1.4988415838 :: real) powr (1 / 3) \<and> (1.4988415838 :: real) powr (1 / 3) \<le> 1.14441949"
  "0.92409231 \<le> (0.7891255059 :: real) powr (1 / 3) \<and> (0.7891255059 :: real) powr (1 / 3) \<le> 0.92409232"
  by (rule cbrt_interval; simp add: power_divide)+

lemma black_white_middle:
  "linearRGBtoHex (oklabMix (Fin 0, Fin 0, Fin 0) (Fin 1, Fin 1, Fin 1) (Fin (1 / 2))) = Fin 0x636363"
proof -
  define c0 :: real where
    "c0 = (0 powr (1 / 3) * (1 - 1 / 2) + 0.7123345137 powr (1 / 3) * (1 / 2)) ^ 3"
  define c1 :: real where
    "c1 = (0 powr (1 / 3) * (1 - 1 / 2) + 1.4988415838 powr (1 / 3) * (1 / 2)) ^ 3"
  define c2 :: real where
    "c2 = (0 powr (1 / 3) * (1 - 1 / 2) + 0.7891255059 powr (1 / 3) * (1 / 2)) ^ 3"
  define v0 where "v0 = 4.0767245293 * c0 - 1.2681437731 * c1 - 0.0041119885 * c2"
  define v1 where "v1 = - 3.3072168827 * c0 + 2.6093323231 * c1 - 0.7034763098 * c2"
  define v2 where "v2 = 0.2307590544 * c0 - 0.3411344290 * c1 + 1.7068625689 * c2"
  have nn: "(0 :: real) \<le> 0" "(0 :: real) \<le> 0.7123345137" "(0 :: real) \<le> 1.4988415838"
    "(0 :: real) \<le> 0.7891255059"
    by simp_all
  have mixed: "oklabMix (Fin 0, Fin 0, Fin 0) (Fin 1, Fin 1, Fin 1) (Fin (1 / 2)) = (Fin v0, Fin v1, Fin v2)"
    unfolding oklabMix_Fin [OF cone_black cone_white nn(1) nn(1) nn(1) nn(2) nn(3) nn(4)] back_finite
      c0_def [symmetric] c1_def [symmetric] c2_def [symmetric]
      v0_def [symmetric] v1_def [symmetric] v2_def [symmetric] ..
  have z: "0 \<le> (0 :: real) powr (1 / 3) \<and> (0 :: real) powr (1 / 3) \<le> 0" by simp
  have "((0 + 0.89308883) / 2) ^ 3 \<le> c0" "c0 \<le> ((0 + 0.89308884) / 2) ^ 3"
    unfolding c0_def by (rule half_mix_cube [OF z cube_roots_white(1)]; simp)+
  moreover have "(0.089041811 :: real) \<le> ((0 + 0.89308883) / 2) ^ 3"
    "((0 + 0.89308884) / 2) ^ 3 \<le> (0.089041815 :: real)"
    by (simp_all add: power_divide)
  ultimately have b0: "0.089041811 \<le> c0" "c0 \<le> 0.089041815" by linarith+
  have "((0 + 1.14441948) / 2) ^ 3 \<le> c1" "c1 \<le> ((0 + 1.14441949) / 2) ^ 3"
    unfolding c1_def by (rule half_mix_cube [OF z cube_roots_white(2)]; simp)+
  moreover have "(0.187355194 :: real) \<le> ((0 + 1.14441948) / 2) ^ 3"
    "((0 + 1.14441949) / 2) ^ 3 \<le> (0.187355200 :: real)"
    by (simp_all add: power_divide)
  ultimately have b1: "0.187355194 \<le> c1" "c1 \<le> 0.187355200" by linarith+
  have "((0 + 0.92409231) / 2) ^ 3 \<le> c2" "c2 \<le> ((0 + 0.92409232) / 2) ^ 3"
    unfolding c2_def by (rule half_mix_cube [OF z cube_roots_white(3)]; simp)+
  moreover have "(0.098640685 :: real) \<le> ((0 + 0.92409231) / 2) ^ 3"
    "((0 + 0.92409232) / 2) ^ 3 \<le> (0.098640689 :: real)"
    by (simp_all add: power_divide)
  ultimately have b2: "0.098640685 \<le> c2" "c2 \<le> 0.098640689" by linarith+
  have w0: "0.12499999 \<le> v0" "v0 \<le> 0.12500002"
    unfolding v0_def using b0 b1 b2 by simp_all
  have w1: "0.12499998 \<le> v1" "v1 \<le> 0.12500002"
    unfolding v1_def using b0 b1 b2 by simp_all
  have w2: "0.12499998 \<le> v2" "v2 \<le> 0.12500000"
    unfolding v2_def using b0 b1 b2 by simp_all
  have r: "scale8 (srgb_encode v0) = 99"
    by (rule encode_interval [OF _ w0]) (simp_all add: power_divide)
  have g: "scale8 (srgb_encode v1) = 99"
    by (rule encode_interval [OF _ w1]) (simp_all add: power_divide)
  have b: "scale8 (srgb_encode v2) = 99"
    by (rule encode_interval [OF _ w2]) (simp_all add: power_divide)
  have "linearRGBtoHex (Fin v0, Fin v1, Fin v2) =
      Fin (real_of_int (scale8 (srgb_encode v0) * 65536 + scale8 (srgb_encode v1) * 256 +
                        scale8 (srgb_encode v2)))"
    by (rule linearRGBtoHex_in_range) (simp_all add: r g b)
  also have "\<dots> = Fin 0x636363"
    unfolding r g b by simp
  finally show ?thesis
    unfolding mixed .
qed

text \<open>
  C2 (as amended). An absent midpoint count is the count 1, and with the count 1
  \<^verbatim>\<open>call\<close> yields three entries, not four: the start colour (the mix at ratio 0), one
  intermediate blend (the mix at ratio 1/2) and the end colour (the mix at ratio 1).
\<close>

theorem call_default:
  assumes "stringToHex start = Inr s" and "stringToHex end' = Inr e"
  shows "call start end' None = call start end' (Some (Fin 1)) \<and>
         (\<exists>e0 e1 e2.
            call start end' (Some (Fin 1)) = Some (Inr [e0, e1, e2]) \<and>
            color e0 = oklabMix (hexToLinearRGB s) (hexToLinearRGB e) (Fin 0) \<and>
            color e1 = oklabMix (hexToLinearRGB s) (hexToLinearRGB e) (Fin (1 / 2)) \<and>
            color e2 = oklabMix (hexToLinearRGB s) (hexToLinearRGB e) (Fin 1) \<and>
            hexColor e0 = s \<and> hexColor e1 = linearRGBtoHex (color e1) \<and> hexColor e2 = e \<and>
            hexString e0 = hexToString s \<and> hexString e1 = hexToString (hexColor e1) \<and>
            hexString e2 = hexToString e)"
proof -
  let ?S = "hexToLinearRGB s" and ?E = "hexToLinearRGB e"
  from assms(1) obtain p where p: "s = Fin (real_of_int p)" "0 \<le> p" "p < 2 ^ 24"
    by (rule stringToHex_range)
  from assms(2) obtain q where q: "e = Fin (real_of_int q)" "0 \<le> q" "q < 2 ^ 24"
    by (rule stringToHex_range)
  note ends = mix_ends_packed [OF p(2,3) q(2,3), folded p(1) q(1)]
  have d: "call start end' None = call start end' (Some (Fin 1))"
    by (simp add: call_def assms)
  have u: "[0 ..< 1 + 2] = [0, 1, 2]"
    by (simp add: upt_rec)
  have n: "Fin 1 = Fin (real 1)" by simp
  have c: "call start end' (Some (Fin 1)) =
      Some (Inr [body ?S ?E (Fin (real (Suc 1))) (Fin (real 0)),
                 body ?S ?E (Fin (real (Suc 1))) (Fin (real 1)),
                 body ?S ?E (Fin (real (Suc 1))) (Fin (real 2))])"
    unfolding n call_entries [OF assms] u by (simp only: list.map)
  have r: "real 0 / real (Suc 1) = 0" "real 1 / real (Suc 1) = 1 / 2" "real 2 / real (Suc 1) = 1"
    by simp_all
  have c0: "color (body ?S ?E (Fin (real (Suc 1))) (Fin (real 0))) = oklabMix ?S ?E (Fin 0)"
    by (simp only: body_at, simp only: r)
  have c1: "color (body ?S ?E (Fin (real (Suc 1))) (Fin (real 1))) = oklabMix ?S ?E (Fin (1 / 2))"
    by (simp only: body_at, simp only: r)
  have c2: "color (body ?S ?E (Fin (real (Suc 1))) (Fin (real 2))) = oklabMix ?S ?E (Fin 1)"
    by (simp only: body_at, simp only: r)
  have h0: "hexColor (body ?S ?E (Fin (real (Suc 1))) (Fin (real 0))) = s"
    by (simp only: body_at, simp only: r, simp only: ends)
  have h2: "hexColor (body ?S ?E (Fin (real (Suc 1))) (Fin (real 2))) = e"
    by (simp only: body_at, simp only: r, simp only: ends)
  have s0: "hexString (body ?S ?E (Fin (real (Suc 1))) (Fin (real 0))) = hexToString s"
    by (simp only: body_at, simp only: r, simp only: ends)
  have s2: "hexString (body ?S ?E (Fin (real (Suc 1))) (Fin (real 2))) = hexToString e"
    by (simp only: body_at, simp only: r, simp only: ends)
  note f1 = body_fields [of ?S ?E "Fin (real (Suc 1))" "Fin (real 1)"]
  from d c c0 c1 c2 h0 h2 s0 s2 f1 show ?thesis by blast
qed

theorem call_default_witness:
  "\<exists>e0 e1 e2.
     call ''#000000'' ''#FFFFFF'' None = Some (Inr [e0, e1, e2]) \<and>
     hexString e0 = ''#000000'' \<and> hexString e1 = ''#636363'' \<and> hexString e2 = ''#ffffff''"
proof -
  have s: "stringToHex ''#000000'' = Inr (Fin 0)" by code_simp
  have e: "stringToHex ''#FFFFFF'' = Inr (Fin 0xFFFFFF)" by code_simp
  have t: "hexToString (Fin 0) = ''#000000''" "hexToString (Fin 0x636363) = ''#636363''"
    "hexToString (Fin 0xFFFFFF) = ''#ffffff''"
    by code_simp+
  from call_default [OF s e] obtain e0 e1 e2 where
    c: "call ''#000000'' ''#FFFFFF'' None = Some (Inr [e0, e1, e2])" and
    m: "color e1 = oklabMix (hexToLinearRGB (Fin 0)) (hexToLinearRGB (Fin 0xFFFFFF)) (Fin (1 / 2))"
      "hexColor e1 = linearRGBtoHex (color e1)" "hexString e1 = hexToString (hexColor e1)" and
    x: "hexString e0 = hexToString (Fin 0)" "hexString e2 = hexToString (Fin 0xFFFFFF)"
    by auto
  from m have "hexString e1 = ''#636363''"
    by (simp only: decode_black decode_white black_white_middle t)
  with c x show ?thesis
    by (simp only: t) blast
qed

theorem call_default_counterexample:
  "map_option (map_sum id length) (call ''#000000'' ''#FFFFFF'' (Some (Fin 1))) = Some (Inr 3) \<and>
   map_option (map_sum id length) (call ''#000000'' ''#FFFFFF'' None) = Some (Inr 3) \<and>
   map_option (map_sum id length) (call ''#000000'' ''#FFFFFF'' None) \<noteq> Some (Inr 4)"
proof -
  have s: "stringToHex ''#000000'' = Inr (Fin 0)" by code_simp
  have e: "stringToHex ''#FFFFFF'' = Inr (Fin 0xFFFFFF)" by code_simp
  have n: "call ''#000000'' ''#FFFFFF'' None = call ''#000000'' ''#FFFFFF'' (Some (Fin 1))"
    by (simp add: call_def s e)
  have r: "Fin 1 = Fin (real 1)" by simp
  have c: "map_option (map_sum id length) (call ''#000000'' ''#FFFFFF'' (Some (Fin 1))) =
        Some (Inr 3)"
    unfolding r call_entries [OF s e] by simp
  show ?thesis
    unfolding n c by simp
qed

section \<open>The blend of red and blue\<close>

lemma decode_red: "hexToLinearRGB (Fin 0xFF0000) = (Fin 1, Fin 0, Fin 0)"
proof -
  have c: "channel 16 0xFF0000 = 255" "channel 8 0xFF0000 = 0" "channel 0 0xFF0000 = 0"
    by (simp_all add: channel_def)
  have "hexToLinearRGB (Fin (real_of_int 0xFF0000)) = (Fin 1, Fin 0, Fin 0)"
    unfolding hexToLinearRGB_int c decode_byte_ends ..
  then show ?thesis by simp
qed

lemma decode_blue: "hexToLinearRGB (Fin 0x0000FF) = (Fin 0, Fin 0, Fin 1)"
proof -
  have c: "channel 16 0x0000FF = 0" "channel 8 0x0000FF = 0" "channel 0 0x0000FF = 255"
    by (simp_all add: channel_def)
  have "hexToLinearRGB (Fin (real_of_int 0x0000FF)) = (Fin 0, Fin 0, Fin 1)"
    unfolding hexToLinearRGB_int c decode_byte_ends ..
  then show ?thesis by simp
qed

lemma cone_red:
  "mat3MultiplyVec3 kCONEtoLMS (Fin 1, Fin 0, Fin 0) =
     (Fin 0.4121656120, Fin 0.5362752080, Fin 0.0514575653)"
  by (simp add: kCONEtoLMS_def)

lemma cone_blue:
  "mat3MultiplyVec3 kCONEtoLMS (Fin 0, Fin 0, Fin 1) =
     (Fin 0.0883097947, Fin 0.2818474174, Fin 0.6302613616)"
  by (simp add: kCONEtoLMS_def)

lemma cube_roots:
  "0.74420157 \<le> (0.4121656120 :: real) powr (1 / 3) \<and> (0.4121656120 :: real) powr (1 / 3) \<le> 0.74420158"
  "0.81244862 \<le> (0.5362752080 :: real) powr (1 / 3) \<and> (0.5362752080 :: real) powr (1 / 3) \<le> 0.81244863"
  "0.37194872 \<le> (0.0514575653 :: real) powr (1 / 3) \<and> (0.0514575653 :: real) powr (1 / 3) \<le> 0.37194873"
  "0.44531735 \<le> (0.0883097947 :: real) powr (1 / 3) \<and> (0.0883097947 :: real) powr (1 / 3) \<le> 0.44531736"
  "0.65564892 \<le> (0.2818474174 :: real) powr (1 / 3) \<and> (0.2818474174 :: real) powr (1 / 3) \<le> 0.65564893"
  "0.85738041 \<le> (0.6302613616 :: real) powr (1 / 3) \<and> (0.6302613616 :: real) powr (1 / 3) \<le> 0.85738042"
  by (rule cbrt_interval; simp add: power_divide)+

lemma red_blue_middle:
  "linearRGBtoHex (oklabMix (Fin 1, Fin 0, Fin 0) (Fin 0, Fin 0, Fin 1) (Fin (1 / 2))) = Fin 0xA17397"
proof -
  define c0 :: real where
    "c0 = (0.4121656120 powr (1 / 3) * (1 - 1 / 2) + 0.0883097947 powr (1 / 3) * (1 / 2)) ^ 3"
  define c1 :: real where
    "c1 = (0.5362752080 powr (1 / 3) * (1 - 1 / 2) + 0.2818474174 powr (1 / 3) * (1 / 2)) ^ 3"
  define c2 :: real where
    "c2 = (0.0514575653 powr (1 / 3) * (1 - 1 / 2) + 0.6302613616 powr (1 / 3) * (1 / 2)) ^ 3"
  define v0 where "v0 = 4.0767245293 * c0 - 1.2681437731 * c1 - 0.0041119885 * c2"
  define v1 where "v1 = - 3.3072168827 * c0 + 2.6093323231 * c1 - 0.7034763098 * c2"
  define v2 where "v2 = 0.2307590544 * c0 - 0.3411344290 * c1 + 1.7068625689 * c2"
  have nn: "(0 :: real) \<le> 0.4121656120" "(0 :: real) \<le> 0.5362752080" "(0 :: real) \<le> 0.0514575653"
    "(0 :: real) \<le> 0.0883097947" "(0 :: real) \<le> 0.2818474174" "(0 :: real) \<le> 0.6302613616"
    by simp_all
  have mixed: "oklabMix (Fin 1, Fin 0, Fin 0) (Fin 0, Fin 0, Fin 1) (Fin (1 / 2)) = (Fin v0, Fin v1, Fin v2)"
    unfolding oklabMix_Fin [OF cone_red cone_blue nn] back_finite
      c0_def [symmetric] c1_def [symmetric] c2_def [symmetric]
      v0_def [symmetric] v1_def [symmetric] v2_def [symmetric] ..
  have "((0.74420157 + 0.44531735) / 2) ^ 3 \<le> c0" "c0 \<le> ((0.74420158 + 0.44531736) / 2) ^ 3"
    unfolding c0_def by (rule half_mix_cube [OF cube_roots(1) cube_roots(4)]; simp)+
  moreover have "(0.210389506 :: real) \<le> ((0.74420157 + 0.44531735) / 2) ^ 3"
    "((0.74420158 + 0.44531736) / 2) ^ 3 \<le> (0.210389518 :: real)"
    by (simp_all add: power_divide)
  ultimately have b0: "0.210389506 \<le> c0" "c0 \<le> 0.210389518" by linarith+
  have "((0.81244862 + 0.65564892) / 2) ^ 3 \<le> c1" "c1 \<le> ((0.81244863 + 0.65564893) / 2) ^ 3"
    unfolding c1_def by (rule half_mix_cube [OF cube_roots(2) cube_roots(5)]; simp)+
  moreover have "(0.395525734 :: real) \<le> ((0.81244862 + 0.65564892) / 2) ^ 3"
    "((0.81244863 + 0.65564893) / 2) ^ 3 \<le> (0.395525751 :: real)"
    by (simp_all add: power_divide)
  ultimately have b1: "0.395525734 \<le> c1" "c1 \<le> 0.395525751" by linarith+
  have "((0.37194872 + 0.85738041) / 2) ^ 3 \<le> c2" "c2 \<le> ((0.37194873 + 0.85738042) / 2) ^ 3"
    unfolding c2_def by (rule half_mix_cube [OF cube_roots(3) cube_roots(6)]; simp)+
  moreover have "(0.232227972 :: real) \<le> ((0.37194872 + 0.85738041) / 2) ^ 3"
    "((0.37194873 + 0.85738042) / 2) ^ 3 \<le> (0.232227985 :: real)"
    by (simp_all add: power_divide)
  ultimately have b2: "0.232227972 \<le> c2" "c2 \<le> 0.232227985" by linarith+
  have w0: "0.35516162 \<le> v0" "v0 \<le> 0.35516170"
    unfolding v0_def using b0 b1 b2 by simp_all
  have w1: "0.17288743 \<le> v1" "v1 \<le> 0.17288753"
    unfolding v1_def using b0 b1 b2 by simp_all
  have w2: "0.31000306 \<le> v2" "v2 \<le> 0.31000310"
    unfolding v2_def using b0 b1 b2 by simp_all
  have r: "scale8 (srgb_encode v0) = 161"
    by (rule encode_interval [OF _ w0]) (simp_all add: power_divide)
  have g: "scale8 (srgb_encode v1) = 115"
    by (rule encode_interval [OF _ w1]) (simp_all add: power_divide)
  have b: "scale8 (srgb_encode v2) = 151"
    by (rule encode_interval [OF _ w2]) (simp_all add: power_divide)
  have "linearRGBtoHex (Fin v0, Fin v1, Fin v2) =
      Fin (real_of_int (scale8 (srgb_encode v0) * 65536 + scale8 (srgb_encode v1) * 256 +
                        scale8 (srgb_encode v2)))"
    by (rule linearRGBtoHex_in_range) (simp_all add: r g b)
  also have "\<dots> = Fin 0xA17397"
    unfolding r g b by simp
  finally show ?thesis
    unfolding mixed .
qed

lemma red_blue_ends:
  "linearRGBtoHex (oklabMix (Fin 1, Fin 0, Fin 0) (Fin 0, Fin 0, Fin 1) (Fin 0)) = Fin 0xFF0000"
  "linearRGBtoHex (oklabMix (Fin 1, Fin 0, Fin 0) (Fin 0, Fin 0, Fin 1) (Fin 1)) = Fin 0x0000FF"
proof -
  have r: "(0 :: int) \<le> 0xFF0000" "(0xFF0000 :: int) < 2 ^ 24"
    and b: "(0 :: int) \<le> 0x0000FF" "(0x0000FF :: int) < 2 ^ 24"
    by simp_all
  note m = mix_ends_packed [OF r b, unfolded of_int_numeral decode_red decode_blue]
  show "linearRGBtoHex (oklabMix (Fin 1, Fin 0, Fin 0) (Fin 0, Fin 0, Fin 1) (Fin 0)) = Fin 0xFF0000"
    by (rule m(1))
  show "linearRGBtoHex (oklabMix (Fin 1, Fin 0, Fin 0) (Fin 0, Fin 0, Fin 1) (Fin 1)) = Fin 0x0000FF"
    by (rule m(2))
qed

lemma red_blue_strings:
  "hexToString (Fin 0xFF0000) = ''#ff0000''"
  "hexToString (Fin 0xA17397) = ''#a17397''"
  "hexToString (Fin 0x0000FF) = ''#0000ff''"
  by code_simp+

lemma red_blue_parse:
  "stringToHex ''#FF0000'' = Inr (Fin 0xFF0000)"
  "stringToHex ''#0000FF'' = Inr (Fin 0x0000FF)"
  by code_simp+

lemma red_blue_entries:
  "call ''#FF0000'' ''#0000FF'' (Some (Fin 1)) =
     Some (Inr [body (Fin 1, Fin 0, Fin 0) (Fin 0, Fin 0, Fin 1) (Fin (real (Suc 1))) (Fin (real 0)),
                body (Fin 1, Fin 0, Fin 0) (Fin 0, Fin 0, Fin 1) (Fin (real (Suc 1))) (Fin (real 1)),
                body (Fin 1, Fin 0, Fin 0) (Fin 0, Fin 0, Fin 1) (Fin (real (Suc 1))) (Fin (real 2))])"
  "call ''#FF0000'' ''#0000FF'' (Some (Fin 0)) =
     Some (Inr [body (Fin 1, Fin 0, Fin 0) (Fin 0, Fin 0, Fin 1) (Fin (real (Suc 0))) (Fin (real 0)),
                body (Fin 1, Fin 0, Fin 0) (Fin 0, Fin 0, Fin 1) (Fin (real (Suc 0))) (Fin (real 1))])"
proof -
  have u: "[0 ..< 1 + 2] = [0, 1, 2]" "[0 ..< 0 + 2] = [0, 1]"
    by (simp_all add: upt_rec)
  have n: "Fin 1 = Fin (real 1)" "Fin 0 = Fin (real 0)" by simp_all
  show "call ''#FF0000'' ''#0000FF'' (Some (Fin 1)) =
     Some (Inr [body (Fin 1, Fin 0, Fin 0) (Fin 0, Fin 0, Fin 1) (Fin (real (Suc 1))) (Fin (real 0)),
                body (Fin 1, Fin 0, Fin 0) (Fin 0, Fin 0, Fin 1) (Fin (real (Suc 1))) (Fin (real 1)),
                body (Fin 1, Fin 0, Fin 0) (Fin 0, Fin 0, Fin 1) (Fin (real (Suc 1))) (Fin (real 2))])"
    unfolding n(1) call_entries [OF red_blue_parse] u decode_red decode_blue
    by (simp only: list.map)
  show "call ''#FF0000'' ''#0000FF'' (Some (Fin 0)) =
     Some (Inr [body (Fin 1, Fin 0, Fin 0) (Fin 0, Fin 0, Fin 1) (Fin (real (Suc 0))) (Fin (real 0)),
                body (Fin 1, Fin 0, Fin 0) (Fin 0, Fin 0, Fin 1) (Fin (real (Suc 0))) (Fin (real 1))])"
    unfolding n(2) call_entries [OF red_blue_parse] u decode_red decode_blue
    by (simp only: list.map)
qed

text \<open>
  C3 (as amended). Mixing \<^verbatim>\<open>#FF0000\<close> and \<^verbatim>\<open>#0000FF\<close> gives three colours with the
  midpoint count 1, not 0: \<^verbatim>\<open>#ff0000\<close>, \<^verbatim>\<open>#a17397\<close> and \<^verbatim>\<open>#0000ff\<close>. The middle one is
  the mix at ratio 1/2, and it is 33, 115 and 23 away from \<^verbatim>\<open>#800080\<close> in its red, green
  and blue channels. With the count 0 there are two colours, the endpoints.
\<close>

theorem red_blue_sequence:
  "(\<exists>e0 e1 e2.
      call ''#FF0000'' ''#0000FF'' (Some (Fin 1)) = Some (Inr [e0, e1, e2]) \<and>
      hexString e0 = ''#ff0000'' \<and> hexString e2 = ''#0000ff'' \<and>
      color e1 =
        oklabMix (hexToLinearRGB (Fin 0xFF0000)) (hexToLinearRGB (Fin 0x0000FF)) (Fin (1 / 2)) \<and>
      hexColor e1 = Fin 0xA17397 \<and> hexString e1 = ''#a17397'') \<and>
   \<bar>channel 16 0xA17397 - channel 16 0x800080\<bar> = 33 \<and>
   \<bar>channel 8 0xA17397 - channel 8 0x800080\<bar> = 115 \<and>
   \<bar>channel 0 0xA17397 - channel 0 0x800080\<bar> = 23 \<and>
   (\<exists>e0 e1.
      call ''#FF0000'' ''#0000FF'' (Some (Fin 0)) = Some (Inr [e0, e1]) \<and>
      hexString e0 = ''#ff0000'' \<and> hexString e1 = ''#0000ff'')"
proof -
  let ?R = "(Fin 1, Fin 0, Fin 0)" and ?B = "(Fin 0, Fin 0, Fin 1)"
  have q: "real 0 / real (Suc 1) = 0" "real 1 / real (Suc 1) = 1 / 2" "real 2 / real (Suc 1) = 1"
    "real 0 / real (Suc 0) = 0" "real 1 / real (Suc 0) = 1"
    by simp_all
  have s0: "hexString (body ?R ?B (Fin (real (Suc 1))) (Fin (real 0))) = ''#ff0000''"
    by (simp only: body_at, simp only: q, simp only: red_blue_ends, simp only: red_blue_strings)
  have s2: "hexString (body ?R ?B (Fin (real (Suc 1))) (Fin (real 2))) = ''#0000ff''"
    by (simp only: body_at, simp only: q, simp only: red_blue_ends, simp only: red_blue_strings)
  have c1: "color (body ?R ?B (Fin (real (Suc 1))) (Fin (real 1))) =
      oklabMix (hexToLinearRGB (Fin 0xFF0000)) (hexToLinearRGB (Fin 0x0000FF)) (Fin (1 / 2))"
    by (simp only: body_at, simp only: q decode_red decode_blue)
  have h1: "hexColor (body ?R ?B (Fin (real (Suc 1))) (Fin (real 1))) = Fin 0xA17397"
    by (simp only: body_at, simp only: q, simp only: red_blue_middle)
  have s1: "hexString (body ?R ?B (Fin (real (Suc 1))) (Fin (real 1))) = ''#a17397''"
    by (simp only: body_at, simp only: q, simp only: red_blue_middle, simp only: red_blue_strings)
  have t0: "hexString (body ?R ?B (Fin (real (Suc 0))) (Fin (real 0))) = ''#ff0000''"
    by (simp only: body_at, simp only: q, simp only: red_blue_ends, simp only: red_blue_strings)
  have t1: "hexString (body ?R ?B (Fin (real (Suc 0))) (Fin (real 1))) = ''#0000ff''"
    by (simp only: body_at, simp only: q, simp only: red_blue_ends, simp only: red_blue_strings)
  have d: "\<bar>channel 16 0xA17397 - channel 16 0x800080\<bar> = 33"
    "\<bar>channel 8 0xA17397 - channel 8 0x800080\<bar> = 115"
    "\<bar>channel 0 0xA17397 - channel 0 0x800080\<bar> = 23"
    by (simp_all add: channel_def)
  from red_blue_entries s0 s2 c1 h1 s1 t0 t1 d show ?thesis by blast
qed

theorem red_blue_sequence_counterexample:
  "map_option (map_sum id length) (call ''#FF0000'' ''#0000FF'' (Some (Fin 0))) = Some (Inr 2) \<and>
   map_option (map_sum id length) (call ''#FF0000'' ''#0000FF'' (Some (Fin 0))) \<noteq> Some (Inr 3)"
  unfolding red_blue_entries(2) by simp

end
